theory Spec2Isabelle
  imports Complex_Main "HOL-Library.AList"
begin

section \<open>Knowledge-base query system: entities, matcher and SPARQL builder\<close>

text \<open>
  A shallow embedding of \<^verbatim>\<open>kb_query/core/entities.py\<close>, \<^verbatim>\<open>kb_query/core/matcher.py\<close>,
  \<^verbatim>\<open>kb_query/core/builder.py\<close> and \<^verbatim>\<open>kb_query/services/query.py\<close>.

  Conventions of the embedding:
  \<^item> Python \<^verbatim>\<open>str\<close> is \<^typ>\<open>string\<close>: a text of code points below 256. The classes
    \<^verbatim>\<open>\s\<close>, \<^verbatim>\<open>\d\<close> and \<^verbatim>\<open>\w\<close>, \<^verbatim>\<open>str.lower\<close>, \<^verbatim>\<open>str.upper\<close> and the comparison under
    \<^verbatim>\<open>re.IGNORECASE\<close> are those of Python on these code points.
  \<^item> A Python \<^verbatim>\<open>float\<close> is the rational number it is (\<^typ>\<open>rat\<close>). The arithmetic on
    floats rounds its results; the rounding and the ratio of \<^verbatim>\<open>difflib\<close> are parameters of
    the matcher (the record \<open>similarity\<close>).
  \<^item> A raised exception is the \<open>Inl\<close> branch of a sum type.
  \<^item> A \<^verbatim>\<open>dict\<close> whose iteration order matters is an association list, updated with
    \<^const>\<open>AList.update\<close> (an existing key keeps its place, a new key goes last).
\<close>

subsection \<open>Characters and strings of the Python runtime\<close>

definition is_space :: "char \<Rightarrow> bool" where
  \<comment> \<open>\<^verbatim>\<open>str.isspace\<close> and the regex class \<^verbatim>\<open>\s\<close> on code points below 256\<close>
  "is_space c = (let n = (of_char c :: nat)
                 in (9 \<le> n \<and> n \<le> 13) \<or> (28 \<le> n \<and> n \<le> 32) \<or> n = 133 \<or> n = 160)"

definition is_digit :: "char \<Rightarrow> bool" where
  "is_digit c = (let n = (of_char c :: nat) in 48 \<le> n \<and> n \<le> 57)"

definition is_word_char :: "char \<Rightarrow> bool" where
  \<comment> \<open>the regex class \<^verbatim>\<open>\w\<close> on code points below 256: the digits, the letters and the
      underscore of ASCII, and the letters and numbers \<^verbatim>\<open>0xAA 0xB2 0xB3 0xB5 0xB9 0xBA
      0xBC-0xBE 0xC0-0xD6 0xD8-0xF6 0xF8-0xFF\<close>\<close>
  "is_word_char c = (let n = (of_char c :: nat)
                     in (48 \<le> n \<and> n \<le> 57) \<or> (65 \<le> n \<and> n \<le> 90) \<or> (97 \<le> n \<and> n \<le> 122) \<or> n = 95
                        \<or> n = 170 \<or> n = 178 \<or> n = 179 \<or> n = 181 \<or> n = 185 \<or> n = 186
                        \<or> (188 \<le> n \<and> n \<le> 190) \<or> (192 \<le> n \<and> n \<le> 214)
                        \<or> (216 \<le> n \<and> n \<le> 246) \<or> (248 \<le> n \<and> n \<le> 255))"

definition uppercase :: string where
  \<comment> \<open>the code points below 256 that \<^verbatim>\<open>str.lower\<close> changes: \<^verbatim>\<open>A-Z\<close>, \<^verbatim>\<open>0xC0-0xD6\<close>, \<^verbatim>\<open>0xD8-0xDE\<close>\<close>
  "uppercase = ''ABCDEFGHIJKLMNOPQRSTUVWXYZ''
     @ [CHR 0xC0, CHR 0xC1, CHR 0xC2, CHR 0xC3, CHR 0xC4, CHR 0xC5, CHR 0xC6, CHR 0xC7,
        CHR 0xC8, CHR 0xC9, CHR 0xCA, CHR 0xCB, CHR 0xCC, CHR 0xCD, CHR 0xCE, CHR 0xCF,
        CHR 0xD0, CHR 0xD1, CHR 0xD2, CHR 0xD3, CHR 0xD4, CHR 0xD5, CHR 0xD6,
        CHR 0xD8, CHR 0xD9, CHR 0xDA, CHR 0xDB, CHR 0xDC, CHR 0xDD, CHR 0xDE]"

definition lowercase :: string where
  \<comment> \<open>their lower case, in the same order: \<^verbatim>\<open>a-z\<close>, \<^verbatim>\<open>0xE0-0xF6\<close>, \<^verbatim>\<open>0xF8-0xFE\<close>\<close>
  "lowercase = ''abcdefghijklmnopqrstuvwxyz''
     @ [CHR 0xE0, CHR 0xE1, CHR 0xE2, CHR 0xE3, CHR 0xE4, CHR 0xE5, CHR 0xE6, CHR 0xE7,
        CHR 0xE8, CHR 0xE9, CHR 0xEA, CHR 0xEB, CHR 0xEC, CHR 0xED, CHR 0xEE, CHR 0xEF,
        CHR 0xF0, CHR 0xF1, CHR 0xF2, CHR 0xF3, CHR 0xF4, CHR 0xF5, CHR 0xF6,
        CHR 0xF8, CHR 0xF9, CHR 0xFA, CHR 0xFB, CHR 0xFC, CHR 0xFD, CHR 0xFE]"

definition lower_char :: "char \<Rightarrow> char" where
  \<comment> \<open>\<^verbatim>\<open>str.lower\<close> on one code point below 256; two code points are equal under
      \<^verbatim>\<open>re.IGNORECASE\<close> when their lower case is the same\<close>
  "lower_char c = (case map_of (zip uppercase lowercase) c of Some d \<Rightarrow> d | None \<Rightarrow> c)"

definition upper_chars :: "char \<Rightarrow> string" where
  \<comment> \<open>\<^verbatim>\<open>str.upper\<close> on one code point below 256: the sharp s \<^verbatim>\<open>0xDF\<close> becomes \<^verbatim>\<open>SS\<close>. The upper
      case of \<^verbatim>\<open>0xB5\<close> and \<^verbatim>\<open>0xFF\<close> is a code point beyond 255, for which the code point itself
      stands: the code looks for ASCII words in an upper-cased text, and neither is one of
      their letters.\<close>
  "upper_chars c =
     (if c = CHR 0xDF then ''SS''
      else (case map_of (zip lowercase uppercase) c of Some d \<Rightarrow> [d] | None \<Rightarrow> [c]))"

definition lower :: "string \<Rightarrow> string" where
  "lower s = map lower_char s"

definition upper :: "string \<Rightarrow> string" where
  "upper s = concat (map upper_chars s)"

definition lstrip :: "string \<Rightarrow> string" where
  "lstrip s = dropWhile is_space s"

definition rstrip :: "string \<Rightarrow> string" where
  "rstrip s = rev (dropWhile is_space (rev s))"

definition strip :: "string \<Rightarrow> string" where
  "strip s = rstrip (lstrip s)"

fun split_ws_acc :: "string \<Rightarrow> string \<Rightarrow> string list" where
  "split_ws_acc cur [] = (if cur = [] then [] else [cur])"
| "split_ws_acc cur (c # cs) =
     (if is_space c then (if cur = [] then split_ws_acc [] cs else cur # split_ws_acc [] cs)
      else split_ws_acc (cur @ [c]) cs)"

definition split_ws :: "string \<Rightarrow> string list" where
  \<comment> \<open>\<^verbatim>\<open>str.split()\<close> without argument: the maximal runs of non-whitespace\<close>
  "split_ws s = split_ws_acc [] s"

fun starts_with :: "string \<Rightarrow> string \<Rightarrow> bool" where
  \<comment> \<open>\<^verbatim>\<open>s.startswith(p)\<close>, written \<open>starts_with p s\<close>\<close>
  "starts_with [] s = True"
| "starts_with (p # ps) [] = False"
| "starts_with (p # ps) (c # cs) = (p = c \<and> starts_with ps cs)"

fun contains :: "string \<Rightarrow> string \<Rightarrow> bool" where
  \<comment> \<open>\<^verbatim>\<open>p in s\<close>, written \<open>contains p s\<close>\<close>
  "contains p [] = (p = [])"
| "contains p (c # cs) = (starts_with p (c # cs) \<or> contains p cs)"

fun count_sub :: "string \<Rightarrow> string \<Rightarrow> nat" where
  \<comment> \<open>the number of places of the text where the (non-empty) pattern occurs\<close>
  "count_sub p [] = 0"
| "count_sub p (c # cs) = (if starts_with p (c # cs) then 1 else 0) + count_sub p cs"

subsection \<open>Errors\<close>

datatype error =
    ValidationError string
  | SPARQLError string "string option"   \<comment> \<open>message, and the \<^verbatim>\<open>sparql_query\<close> attribute\<close>
  | StopIteration

fun error_message_of :: "error \<Rightarrow> string" where
  \<comment> \<open>\<^verbatim>\<open>str(e)\<close>\<close>
  "error_message_of (ValidationError m) = m"
| "error_message_of (SPARQLError m q) = m"
| "error_message_of StopIteration = []"

subsection \<open>Placeholders of a template\<close>

definition match_placeholder :: "string \<Rightarrow> (string \<times> string) option" where
  \<comment> \<open>the regex \<^verbatim>\<open>\{([^}]+)\}\<close> tried at the head of the text: the captured name and the
      text after the closing brace\<close>
  "match_placeholder s =
     (case s of
        [] \<Rightarrow> None
      | c # t \<Rightarrow>
          if c \<noteq> CHR ''{'' then None
          else (let name = takeWhile (\<lambda>x. x \<noteq> CHR ''}'') t;
                    rest = dropWhile (\<lambda>x. x \<noteq> CHR ''}'') t
                in if name = [] \<or> rest = [] then None else Some (name, tl rest)))"

lemma match_placeholder_shorter:
  "match_placeholder s = Some (n, r) \<Longrightarrow> length r < length s"
proof -
  assume a: "match_placeholder s = Some (n, r)"
  then obtain c t where s: "s = c # t" by (cases s) (auto simp: match_placeholder_def)
  from a s have r: "r = tl (dropWhile (\<lambda>x. x \<noteq> CHR ''}'') t)"
    by (auto simp: match_placeholder_def Let_def split: if_splits)
  have "length (dropWhile (\<lambda>x. x \<noteq> CHR ''}'') t) \<le> length t"
    by (rule length_dropWhile_le)
  with r s show ?thesis by simp
qed

function has_placeholder_from :: "string \<Rightarrow> bool" where
  \<comment> \<open>\<^verbatim>\<open>re.search(r'\{[^}]+\}', s)\<close> succeeds\<close>
  "has_placeholder_from [] = False"
| "has_placeholder_from (c # cs) =
     (case match_placeholder (c # cs) of
        Some m \<Rightarrow> True
      | None \<Rightarrow> has_placeholder_from cs)"
  by pat_completeness auto
termination
  by (relation "measure length") auto

function find_placeholders :: "string \<Rightarrow> string list" where
  \<comment> \<open>\<^verbatim>\<open>re.findall(r'{([^}]+)}', s)\<close>\<close>
  "find_placeholders [] = []"
| "find_placeholders (c # cs) =
     (case match_placeholder (c # cs) of
        Some (name, rest) \<Rightarrow> name # find_placeholders rest
      | None \<Rightarrow> find_placeholders cs)"
  by pat_completeness auto
termination
  by (relation "measure length") (auto dest: match_placeholder_shorter)

function remove_placeholders :: "string \<Rightarrow> string" where
  \<comment> \<open>\<^verbatim>\<open>re.sub(r'\{[^}]+\}', '', s)\<close>\<close>
  "remove_placeholders [] = []"
| "remove_placeholders (c # cs) =
     (case match_placeholder (c # cs) of
        Some (name, rest) \<Rightarrow> remove_placeholders rest
      | None \<Rightarrow> c # remove_placeholders cs)"
  by pat_completeness auto
termination
  by (relation "measure length") (auto dest: match_placeholder_shorter)

subsection \<open>Pattern (entities.py)\<close>

record Pattern =
  pattern_id :: string
  template :: string
  sparql_template :: string
  entity_types :: "(string \<times> string) list"
  examples :: "string list"
  confidence :: rat
  domain_class :: string
  property :: string
  pattern_keywords :: "string list"

definition stop_words :: "string list" where
  "stop_words = [''the'', ''and'', ''or'', ''but'', ''in'', ''on'', ''at'', ''to'', ''for'',
                 ''of'', ''with'', ''by'', ''a'', ''an'']"

definition extract_keywords :: "string \<Rightarrow> string list" where
  "extract_keywords tmpl =
     (let text = remove_placeholders tmpl;
          words = map (\<lambda>w. strip (lower w)) (filter (\<lambda>w. strip w \<noteq> []) (split_ws text))
      in filter (\<lambda>w. length w > 2 \<and> w \<notin> set stop_words) words)"

definition has_entity_placeholders :: "string \<Rightarrow> bool" where
  "has_entity_placeholders tmpl = has_placeholder_from tmpl"

definition validate_pattern :: "Pattern \<Rightarrow> error option" where
  \<comment> \<open>\<^verbatim>\<open>Pattern.validate\<close>: the exception raised, if any\<close>
  "validate_pattern p =
     (if pattern_id p = [] then Some (ValidationError ''Pattern ID cannot be empty'')
      else if \<not> has_entity_placeholders (template p)
        then Some (ValidationError (''Pattern '' @ pattern_id p @ '' has no entity placeholders''))
      else if \<not> (0 \<le> confidence p \<and> confidence p \<le> 1)
        then Some (ValidationError (''Pattern '' @ pattern_id p @ '' confidence must be between 0.0 and 1.0''))
      else if examples p = []
        then Some (ValidationError (''Pattern '' @ pattern_id p @ '' must have at least one example''))
      else if strip (sparql_template p) = []
        then Some (ValidationError (''Pattern '' @ pattern_id p @ '' must have SPARQL template''))
      else None)"

definition Pattern_new ::
  "string \<Rightarrow> string \<Rightarrow> string \<Rightarrow> (string \<times> string) list \<Rightarrow> string list \<Rightarrow> rat \<Rightarrow> string \<Rightarrow> string
     \<Rightarrow> error + Pattern" where
  \<comment> \<open>the dataclass constructor followed by \<^verbatim>\<open>__post_init__\<close>\<close>
  "Pattern_new i t s et ex c d pr =
     (let p = \<lparr> pattern_id = i, template = t, sparql_template = s, entity_types = et,
                examples = ex, confidence = c, domain_class = d, property = pr,
                pattern_keywords = extract_keywords t \<rparr>
      in case validate_pattern p of Some e \<Rightarrow> Inl e | None \<Rightarrow> Inr p)"

subsection \<open>Grammar (entities.py)\<close>

record Grammar =
  patterns :: "Pattern list"
  ontology_hash :: string
  namespaces :: "(string \<times> string) list"
  created_at :: string

definition validate_grammar :: "Grammar \<Rightarrow> error option" where
  \<comment> \<open>\<^verbatim>\<open>Grammar.validate\<close>; \<^verbatim>\<open>len(set(ids))\<close> is the number of distinct ids\<close>
  "validate_grammar g =
     (if patterns g = [] then Some (ValidationError ''Grammar must contain at least one pattern'')
      else if ontology_hash g = [] then Some (ValidationError ''Grammar must have ontology hash'')
      else (let pattern_ids = map pattern_id (patterns g)
            in if length pattern_ids \<noteq> length (remdups pattern_ids)
               then Some (ValidationError ''Grammar contains duplicate pattern IDs'')
               else None))"

definition Grammar_new ::
  "Pattern list \<Rightarrow> string \<Rightarrow> (string \<times> string) list \<Rightarrow> string \<Rightarrow> error + Grammar" where
  "Grammar_new ps h ns t =
     (let g = \<lparr> patterns = ps, ontology_hash = h, namespaces = ns, created_at = t \<rparr>
      in case validate_grammar g of Some e \<Rightarrow> Inl e | None \<Rightarrow> Inr g)"

subsection \<open>A sample pattern (from the unit tests)\<close>

definition sample_pattern :: Pattern where
  "sample_pattern = \<lparr> pattern_id = ''test_001'', template = ''meetings with {person}'',
      sparql_template = ''SELECT ?meeting WHERE { ?meeting kb:hasAttendee ?person }'',
      entity_types = [(''person'', ''foaf:Person'')], examples = [''meetings with John Smith''],
      confidence = 19 / 20, domain_class = ''kb:Meeting'', property = ''kb:hasAttendee'',
      pattern_keywords = [''meetings''] \<rparr>"


subsection \<open>More of the Python runtime: slices, search, decimal numerals\<close>

definition nl :: string where
  \<comment> \<open>the one-character string \<^verbatim>\<open>"\n"\<close>\<close>
  "nl = [CHR 0x0A]"

definition ends_with :: "string \<Rightarrow> string \<Rightarrow> bool" where
  \<comment> \<open>\<^verbatim>\<open>s.endswith(p)\<close>, written \<open>ends_with p s\<close>\<close>
  "ends_with p s = starts_with (rev p) (rev s)"

definition rfind :: "char \<Rightarrow> string \<Rightarrow> nat option" where
  \<comment> \<open>\<^verbatim>\<open>s.rfind(c)\<close>: the index of the last occurrence, \<open>None\<close> for \<^verbatim>\<open>-1\<close>\<close>
  "rfind c s = (let r = dropWhile (\<lambda>x. x \<noteq> c) (rev s)
                in if r = [] then None else Some (length r - 1))"

fun str_nat :: "nat \<Rightarrow> string" where
  "str_nat n = (if n < 10 then [''0123456789'' ! n]
                else str_nat (n div 10) @ [''0123456789'' ! (n mod 10)])"

definition str_int :: "int \<Rightarrow> string" where
  \<comment> \<open>\<^verbatim>\<open>str(n)\<close> of an integer, as an f-string formats it\<close>
  "str_int n = (if n < 0 then ''-'' @ str_nat (nat (- n)) else str_nat (nat n))"

subsection \<open>SPARQLBuilder.add\_limit (builder.py)\<close>

definition limit_clause_at :: "string \<Rightarrow> bool" where
  \<comment> \<open>the regex \<^verbatim>\<open>\s+LIMIT\s+\d+\s*$\<close> with IGNORECASE matches at the head of the text;
      every repetition is greedy and is followed by a character outside its class, so the
      match is the only way to split the text\<close>
  "limit_clause_at s =
     (let ws1 = takeWhile is_space s; r1 = dropWhile is_space s;
          kw = take 5 r1; r2 = drop 5 r1;
          ws2 = takeWhile is_space r2; r3 = dropWhile is_space r2;
          ds = takeWhile is_digit r3; r4 = dropWhile is_digit r3
      in ws1 \<noteq> [] \<and> lower kw = ''limit'' \<and> ws2 \<noteq> [] \<and> ds \<noteq> [] \<and> list_all is_space r4)"

fun sub_limit :: "string \<Rightarrow> string" where
  \<comment> \<open>\<^verbatim>\<open>re.sub(r'\s+LIMIT\s+\d+\s*$', '', s, flags=re.IGNORECASE)\<close>: the leftmost match
      runs to the end of the text and is removed\<close>
  "sub_limit [] = []"
| "sub_limit (c # cs) = (if limit_clause_at (c # cs) then [] else c # sub_limit cs)"

definition add_limit :: "string \<Rightarrow> int \<Rightarrow> string" where
  "add_limit sparql limit =
     (let s1 = sub_limit sparql;
          s2 = rstrip s1;
          s3 = (if \<not> ends_with ''}'' s2
                then (case rfind CHR ''}'' s2 of
                        Some last_brace \<Rightarrow> take (last_brace + 1) s2
                      | None \<Rightarrow> s2)
                else s2)
      in s3 @ nl @ ''LIMIT '' @ str_int limit)"

subsection \<open>Lines of a text\<close>

fun split_nl_acc :: "string \<Rightarrow> string \<Rightarrow> string list" where
  "split_nl_acc cur [] = [cur]"
| "split_nl_acc cur (c # cs) =
     (if c = CHR 0x0A then cur # split_nl_acc [] cs else split_nl_acc (cur @ [c]) cs)"

definition split_nl :: "string \<Rightarrow> string list" where
  \<comment> \<open>\<^verbatim>\<open>s.split('\n')\<close>\<close>
  "split_nl s = split_nl_acc [] s"

fun join_with :: "string \<Rightarrow> string list \<Rightarrow> string" where
  \<comment> \<open>\<^verbatim>\<open>sep.join(parts)\<close>\<close>
  "join_with sep [] = []"
| "join_with sep [x] = x"
| "join_with sep (x # y # ys) = x @ sep @ join_with sep (y # ys)"

subsection \<open>SPARQLBuilder.validate\_sparql and optimize\_query (builder.py)\<close>

definition validate_sparql :: "string \<Rightarrow> bool" where
  "validate_sparql sparql =
     (let sparql_upper = upper sparql
      in if \<not> (\<exists>keyword \<in> set [''SELECT'', ''CONSTRUCT'', ''ASK'', ''DESCRIBE''].
                   contains keyword sparql_upper) then False
         else if contains ''SELECT'' sparql_upper \<and> \<not> contains ''WHERE'' sparql_upper then False
         else if count_list sparql CHR ''{'' \<noteq> count_list sparql CHR ''}'' then False
         else if count_list sparql CHR ''('' \<noteq> count_list sparql CHR '')'' then False
         else True)"

record line_classes =
  in_where :: bool
  filters :: "string list"
  triple_patterns :: "string list"
  other :: "string list"

definition classify_line :: "line_classes \<Rightarrow> string \<Rightarrow> line_classes" where
  \<comment> \<open>one round of the \<^verbatim>\<open>for line in lines\<close> loop of \<^verbatim>\<open>optimize_query\<close>\<close>
  "classify_line st line =
     (let line_stripped = strip line
      in if contains ''WHERE'' line_stripped
           then st\<lparr> in_where := True, other := other st @ [line] \<rparr>
         else if in_where st \<and> starts_with ''FILTER'' line_stripped
           then st\<lparr> filters := filters st @ [line] \<rparr>
         else if in_where st \<and> (starts_with ''?'' line_stripped \<or> starts_with ''<'' line_stripped)
           then st\<lparr> triple_patterns := triple_patterns st @ [line] \<rparr>
         else st\<lparr> other := other st @ [line] \<rparr>)"

fun first_index :: "('a \<Rightarrow> bool) \<Rightarrow> 'a list \<Rightarrow> nat option" where
  \<comment> \<open>\<^verbatim>\<open>next(i for i, x in enumerate(xs) if P(x))\<close>; \<open>None\<close> stands for StopIteration\<close>
  "first_index P [] = None"
| "first_index P (x # xs) =
     (if P x then Some 0 else map_option Suc (first_index P xs))"

definition optimize_query :: "string \<Rightarrow> error + string" where
  "optimize_query sparql =
     (let lines = split_nl sparql;
          st = foldl classify_line
                 \<lparr> in_where = False, filters = [], triple_patterns = [], other = [] \<rparr> lines
      in if filters st \<noteq> [] \<and> triple_patterns st \<noteq> []
         then (case first_index (contains ''WHERE'') (other st) of
                 None \<Rightarrow> Inl StopIteration
               | Some where_idx \<Rightarrow>
                   (let result = take (where_idx + 1) (other st) @ triple_patterns st @ filters st;
                        remaining =
                          dropWhile (\<lambda>l. strip l \<in> set [[], ''}''])
                            (drop (where_idx + 1) (other st))
                    in Inr (join_with nl (result @ remaining))))
         else Inr sparql)"

definition datatype_query :: string where
  \<comment> \<open>a query of the shape that \<^verbatim>\<open>_generate_sparql_datatype_template\<close> (grammar.py) emits,
      after substitution of the value\<close>
  "datatype_query =
     ''SELECT ?todo'' @ nl @
     ''WHERE {'' @ nl @
     ''  ?todo <http://e/tag> ?tag .'' @ nl @
     ''  FILTER (lcase(str(?tag)) = lcase(\"x\"))'' @ nl @
     ''}''"

subsection \<open>A backtracking matcher for the regular expressions of the code\<close>

text \<open>
  The regular expressions used by the matcher and the builder are sequences of
  single-character items, each with a repetition and possibly captured as a group.
  \<open>Item p lo many greedy cap\<close> matches at least \<open>lo\<close> and at most one (or, when \<open>many\<close>,
  any number of) characters that satisfy \<open>p\<close>; a greedy item tries the longest repetition
  first, a lazy one the shortest. \<open>rx_all\<close> lists, in the order in which a backtracking
  engine tries them, the ways a sequence matches at the head of a text: the captured
  groups and the text that is left.
\<close>

datatype item = Item "char \<Rightarrow> bool" nat bool bool bool

fun rx_all :: "item list \<Rightarrow> string \<Rightarrow> (string list \<times> string) list" where
  "rx_all [] s = [([], s)]"
| "rx_all (Item p lo many greedy cap # r) s =
     (let m = length (takeWhile p s);
          hi = (if many then m else min 1 m);
          ks = (if greedy then rev [lo ..< hi + 1] else [lo ..< hi + 1])
      in concat (map (\<lambda>k. map (\<lambda>(gs, u). (if cap then take k s # gs else gs, u))
                                (rx_all r (drop k s))) ks))"

definition lit :: "char \<Rightarrow> item" where
  \<comment> \<open>a literal character under IGNORECASE\<close>
  "lit c = Item (\<lambda>d. lower_char d = lower_char c) 1 False True False"

definition lits :: "string \<Rightarrow> item list" where
  "lits s = map lit s"

definition at_end :: "string \<Rightarrow> bool" where
  \<comment> \<open>the anchor \<^verbatim>\<open>$\<close>: at the end of the text, or before a newline that ends it\<close>
  "at_end rest = (rest = [] \<or> rest = nl)"

definition rx_match_anchored :: "item list \<Rightarrow> string \<Rightarrow> string list option" where
  \<comment> \<open>\<^verbatim>\<open>re.match('^...$', s)\<close>: the groups of the first way to match that ends at \<^verbatim>\<open>$\<close>\<close>
  "rx_match_anchored rx s =
     (case filter (\<lambda>(gs, rest). at_end rest) (rx_all rx s) of
        [] \<Rightarrow> None
      | (gs, rest) # ms \<Rightarrow> Some gs)"

fun rx_search :: "item list \<Rightarrow> string \<Rightarrow> (string list \<times> string) option" where
  \<comment> \<open>\<^verbatim>\<open>re.search\<close>: the first way to match at the leftmost position where there is one;
      the groups, and the text after the match\<close>
  "rx_search rx [] = (case rx_all rx [] of [] \<Rightarrow> None | m # ms \<Rightarrow> Some m)"
| "rx_search rx (c # cs) =
     (case rx_all rx (c # cs) of [] \<Rightarrow> rx_search rx cs | m # ms \<Rightarrow> Some m)"

function rx_findall :: "item list \<Rightarrow> string \<Rightarrow> string list list" where
  \<comment> \<open>\<^verbatim>\<open>re.findall\<close>: the groups of the successive non-overlapping matches; the scan
      goes on after a match, one character further when the match consumed nothing\<close>
  "rx_findall rx [] = (case rx_all rx [] of [] \<Rightarrow> [] | (gs, rest) # ms \<Rightarrow> [gs])"
| "rx_findall rx (c # cs) =
     (case rx_all rx (c # cs) of
        [] \<Rightarrow> rx_findall rx cs
      | (gs, rest) # ms \<Rightarrow>
          gs # (if length rest < length (c # cs) then rx_findall rx rest else rx_findall rx cs))"
  by pat_completeness auto
termination
  by (relation "measure (\<lambda>(rx, s). length s)") auto

subsection \<open>MatchResult and SPARQLQuery (entities.py)\<close>

record MatchResult =
  pattern :: Pattern
  match_confidence :: rat
  entities :: "(string \<times> string) list"
  match_type :: string

definition MatchResult_new ::
  "Pattern \<Rightarrow> rat \<Rightarrow> (string \<times> string) list \<Rightarrow> string \<Rightarrow> error + MatchResult" where
  "MatchResult_new p c ents mt =
     (if \<not> (0 \<le> c \<and> c \<le> 1)
        then Inl (ValidationError ''Match confidence must be between 0.0 and 1.0'')
      else if mt \<notin> set [''exact'', ''fuzzy'', ''partial'']
        then Inl (ValidationError (''Invalid match type: '' @ mt))
      else Inr \<lparr> pattern = p, match_confidence = c, entities = ents, match_type = mt \<rparr>)"

record SPARQLQuery =
  query_text :: string
  variables :: "string list"
  estimated_complexity :: nat
  optimization_applied :: bool

definition SPARQLQuery_new :: "string \<Rightarrow> string list \<Rightarrow> nat \<Rightarrow> bool \<Rightarrow> error + SPARQLQuery" where
  "SPARQLQuery_new t vs c opt =
     (if strip t = [] then Inl (ValidationError ''SPARQL query text cannot be empty'')
      else Inr \<lparr> query_text = t, variables = vs, estimated_complexity = c,
                 optimization_applied = opt \<rparr>)"

subsection \<open>SPARQLBuilder (builder.py)\<close>

function replace_str :: "string \<Rightarrow> string \<Rightarrow> string \<Rightarrow> string" where
  \<comment> \<open>\<^verbatim>\<open>s.replace(old, new)\<close>, written \<open>replace_str old new s\<close>\<close>
  "replace_str old new [] = (if old = [] then new else [])"
| "replace_str old new (c # cs) =
     (if old = [] then new @ c # replace_str old new cs
      else if starts_with old (c # cs) then new @ replace_str old new (drop (length old) (c # cs))
      else c # replace_str old new cs)"
  by pat_completeness auto
termination
  by (relation "measure (\<lambda>(old, new, s). length s)") auto

definition escape_sparql_string :: "string \<Rightarrow> string" where
  "escape_sparql_string v0 =
     (let v1 = replace_str [CHR 0x5C] [CHR 0x5C, CHR 0x5C] v0;
          v2 = replace_str [CHR 0x22] [CHR 0x5C, CHR 0x22] v1;
          v3 = replace_str [CHR 0x0A] [CHR 0x5C, CHR ''n''] v2;
          v4 = replace_str [CHR 0x0D] [CHR 0x5C, CHR ''r''] v3;
          v5 = replace_str [CHR 0x09] [CHR 0x5C, CHR ''t''] v4
      in v5)"

fun substitute_entities :: "(string \<times> string) list \<Rightarrow> string \<Rightarrow> string" where
  \<comment> \<open>the loop over \<^verbatim>\<open>entities.items()\<close> in \<^verbatim>\<open>build_query\<close>\<close>
  "substitute_entities [] sparql = sparql"
| "substitute_entities ((entity_name, entity_value) # rest) sparql =
     substitute_entities rest
       (replace_str (''{'' @ entity_name @ ''}'') (escape_sparql_string entity_value) sparql)"

definition add_namespaces :: "(string \<times> string) list \<Rightarrow> string \<Rightarrow> string" where
  "add_namespaces nss sparql =
     (if nss = [] then sparql
      else if \<not> contains ''PREFIX'' (upper sparql)
        then join_with nl (map (\<lambda>(prefix, uri). ''PREFIX '' @ prefix @ '': <'' @ uri @ ''>'') nss)
               @ nl @ sparql
      else sparql)"

definition where_at :: "string \<Rightarrow> (string \<times> string) option" where
  \<comment> \<open>the regex \<^verbatim>\<open>WHERE\s*\{(.*)\}\<close> with DOTALL and IGNORECASE tried at the head of the
      text: the group, which runs up to the last closing brace, and the text after that brace\<close>
  "where_at s =
     (if lower (take 5 s) = ''where''
      then (case dropWhile is_space (drop 5 s) of
              [] \<Rightarrow> None
            | c # body \<Rightarrow>
                if c = CHR ''{''
                then (case rfind CHR ''}'' body of
                        None \<Rightarrow> None
                      | Some j \<Rightarrow> Some (take j body, drop (j + 1) body))
                else None)
      else None)"

fun where_search :: "string \<Rightarrow> string \<Rightarrow> (string \<times> string \<times> string) option" where
  \<comment> \<open>\<^verbatim>\<open>re.search\<close> of that regex: the text before the leftmost match (gathered in the first
      argument), the group and the text after the match\<close>
  "where_search acc [] = None"
| "where_search acc (c # cs) =
     (case where_at (c # cs) of
        Some (content, rest) \<Rightarrow> Some (acc, content, rest)
      | None \<Rightarrow> where_search (acc @ [c]) cs)"

definition truthy_list :: "'a list option \<Rightarrow> bool" where
  \<comment> \<open>the truth value of an optional list or string: \<^verbatim>\<open>None\<close> and the empty one are false\<close>
  "truthy_list x = (case x of None \<Rightarrow> False | Some l \<Rightarrow> l \<noteq> [])"

definition indent_content :: "string \<Rightarrow> string" where
  \<comment> \<open>\<^verbatim>\<open>'\n    '.join(where_content.split('\n'))\<close>\<close>
  "indent_content where_content = join_with (nl @ ''    '') (split_nl where_content)"

definition graph_block :: "string \<Rightarrow> string \<Rightarrow> string" where
  \<comment> \<open>one element of \<^verbatim>\<open>graph_blocks\<close>\<close>
  "graph_block where_content graph =
     ''  {'' @ nl @ ''    GRAPH <'' @ graph @ ''> {'' @ nl @ ''      '' @ indent_content where_content @ nl
       @ ''    }'' @ nl @ ''  }''"

definition graphs_to_query :: "string list option \<Rightarrow> string option \<Rightarrow> string list" where
  \<comment> \<open>the default graph, when it is not empty, then the named graphs\<close>
  "graphs_to_query named_graphs default_graph =
     (case default_graph of None \<Rightarrow> [] | Some g \<Rightarrow> if g \<noteq> [] then [g] else [])
     @ (case named_graphs of None \<Rightarrow> [] | Some gs \<Rightarrow> gs)"

definition add_graph_clauses :: "string \<Rightarrow> string list option \<Rightarrow> string option \<Rightarrow> string" where
  "add_graph_clauses sparql named_graphs default_graph =
     (if \<not> truthy_list named_graphs \<and> \<not> truthy_list default_graph then sparql
      else case where_search [] sparql of
        None \<Rightarrow> sparql
      | Some (text_before, group1, text_after) \<Rightarrow>
          (let where_content = strip group1
           in case graphs_to_query named_graphs default_graph of
                [] \<Rightarrow> sparql
              | [graph] \<Rightarrow>
                  text_before @ ''WHERE {'' @ nl @ ''  GRAPH <'' @ graph @ ''> {'' @ nl
                   @ ''    '' @ where_content @ nl @ ''  }'' @ nl @ ''}'' @ text_after
              | g1 # g2 # gs \<Rightarrow>
                  text_before @ ''WHERE {'' @ nl
                   @ join_with (nl @ ''  UNION'' @ nl)
                       (map (graph_block where_content) (graphs_to_query named_graphs default_graph))
                   @ nl @ ''}'' @ text_after))"

fun dedup_seen :: "'a list \<Rightarrow> 'a list \<Rightarrow> 'a list" where
  \<comment> \<open>the loop that keeps the first occurrence of each element; the first argument is
      \<^verbatim>\<open>seen\<close>\<close>
  "dedup_seen seen [] = []"
| "dedup_seen seen (x # xs) =
     (if x \<in> set seen then dedup_seen seen xs else x # dedup_seen (seen @ [x]) xs)"

definition first_group :: "string list \<Rightarrow> string" where
  \<comment> \<open>\<^verbatim>\<open>match.group(1)\<close> of a regex with one group\<close>
  "first_group gs = (case gs of [] \<Rightarrow> [] | g # rest \<Rightarrow> g)"

definition select_rx :: "item list" where
  \<comment> \<open>\<^verbatim>\<open>SELECT\s+(.*?)\s+WHERE\<close> with IGNORECASE and DOTALL\<close>
  "select_rx = lits ''SELECT'' @ [Item is_space 1 True True False,
                                  Item (\<lambda>c. True) 0 True False True,
                                  Item is_space 1 True True False] @ lits ''WHERE''"

definition var_rx :: "item list" where
  \<comment> \<open>\<^verbatim>\<open>\?(\w+)\<close>\<close>
  "var_rx = [Item (\<lambda>c. c = CHR ''?'') 1 False True False, Item is_word_char 1 True True True]"

definition extract_variables :: "string \<Rightarrow> string list" where
  "extract_variables sparql =
     (case rx_search select_rx sparql of
        None \<Rightarrow> []
      | Some (gs, rest) \<Rightarrow>
          (let select_clause = first_group gs
           in if CHR ''*'' \<in> set select_clause
              then dedup_seen [] (map first_group (rx_findall var_rx sparql))
              else dedup_seen [] (map first_group (rx_findall var_rx select_clause))))"

definition triple_rx :: "item list" where
  \<comment> \<open>\<^verbatim>\<open>\?[\w]+\s+[\w:]+\s+\?[\w]+\<close>\<close>
  "triple_rx = [Item (\<lambda>c. c = CHR ''?'') 1 False True False, Item is_word_char 1 True True False,
                Item is_space 1 True True False,
                Item (\<lambda>c. is_word_char c \<or> c = CHR '':'') 1 True True False,
                Item is_space 1 True True False,
                Item (\<lambda>c. c = CHR ''?'') 1 False True False, Item is_word_char 1 True True False]"

definition estimate_complexity :: "string \<Rightarrow> nat" where
  "estimate_complexity sparql =
     (let triple_count = length (rx_findall triple_rx sparql);
          c1 = 1 + (if triple_count > 3 then 1 else 0);
          c2 = c1 + (if triple_count > 5 then 1 else 0);
          c3 = c2 + (if contains ''FILTER'' (upper sparql) then 1 else 0);
          c4 = c3 + (if contains ''OPTIONAL'' (upper sparql) then 1 else 0);
          c5 = c4 + (if \<exists>func \<in> set [''COUNT'', ''SUM'', ''AVG'', ''MIN'', ''MAX''].
                          contains func (upper sparql) then 1 else 0)
      in min c5 5)"

definition generated_text ::
  "(string \<times> string) list \<Rightarrow> MatchResult \<Rightarrow> string list option \<Rightarrow> string option \<Rightarrow> string" where
  \<comment> \<open>the first part of \<^verbatim>\<open>build_query\<close>: the template with the entity values substituted, the
      prefixes added and the graph clauses added; the first argument is \<^verbatim>\<open>self.namespaces\<close>\<close>
  "generated_text nss match_result named_graphs default_graph =
     (let sparql0 = sparql_template (pattern match_result);
          sparql1 = substitute_entities (entities match_result) sparql0;
          sparql2 = add_namespaces nss sparql1
      in if truthy_list named_graphs \<or> truthy_list default_graph
         then add_graph_clauses sparql2 named_graphs default_graph else sparql2)"

definition build_query ::
  "(string \<times> string) list \<Rightarrow> MatchResult \<Rightarrow> string list option \<Rightarrow> string option
     \<Rightarrow> error + SPARQLQuery" where
  \<comment> \<open>the second part: variables, validation, result; every exception that is not a
      SPARQLError is wrapped into one\<close>
  "build_query nss match_result named_graphs default_graph =
     (let sparql = generated_text nss match_result named_graphs default_graph;
          vars = extract_variables sparql
      in if \<not> validate_sparql sparql
         then Inl (SPARQLError (''Invalid SPARQL generated: '' @ take 100 sparql @ ''...'') None)
         else (case SPARQLQuery_new sparql vars (estimate_complexity sparql) False of
                 Inr q \<Rightarrow> Inr q
               | Inl e \<Rightarrow>
                   Inl (SPARQLError (''Failed to build SPARQL query: '' @ error_message_of e) None)))"

definition exact_match_result :: MatchResult where
  \<comment> \<open>the result of matching \<^verbatim>\<open>"meetings with John Smith"\<close> against the sample pattern\<close>
  "exact_match_result =
     \<lparr> pattern = sample_pattern, match_confidence = 1,
       entities = [(''person'', ''John Smith'')], match_type = ''exact'' \<rparr>"

definition unclosed_template :: string where
  \<comment> \<open>a SPARQL template of 124 characters whose closing brace is missing\<close>
  "unclosed_template =
     ''SELECT ?meeting ?person_name WHERE { ?meeting <http://example.org/kb#hasAttendee> ?person . ?person foaf:name ?person_name .''"

definition unclosed_match_result :: MatchResult where
  "unclosed_match_result =
     \<lparr> pattern = sample_pattern\<lparr> sparql_template := unclosed_template \<rparr>, match_confidence = 1,
       entities = [(''person'', ''John Smith'')], match_type = ''exact'' \<rparr>"

definition swapped_match_result :: MatchResult where
  \<comment> \<open>a template whose closing brace comes before its opening brace\<close>
  "swapped_match_result =
     \<lparr> pattern = sample_pattern\<lparr> sparql_template := ''SELECT ?x WHERE } ?x a ?y {'' \<rparr>,
       match_confidence = 1, entities = [], match_type = ''exact'' \<rparr>"

definition datatype_match_result :: MatchResult where
  "datatype_match_result =
     \<lparr> pattern = sample_pattern\<lparr> sparql_template := datatype_query \<rparr>, match_confidence = 1,
       entities = [], match_type = ''exact'' \<rparr>"

subsection \<open>PatternMatcher: template regex and exact match (matcher.py)\<close>

definition regex_special_chars :: string where
  \<comment> \<open>the characters that \<^verbatim>\<open>re.escape\<close> escapes (Python 3.7 and later; the project requires 3.8):
      \<^verbatim>\<open>()[]{}?*+-|^$\.&~#\<close>, the space and \<^verbatim>\<open>\t\n\r\v\f\<close>; the apostrophe is not among them\<close>
  "regex_special_chars =
     ''()[]{}?*+-|^$'' @ [CHR 0x5C] @ ''.&~# '' @ [CHR 0x09, CHR 0x0A, CHR 0x0D, CHR 0x0B, CHR 0x0C]"

definition re_escape :: "string \<Rightarrow> string" where
  "re_escape s = concat (map (\<lambda>c. if c \<in> set regex_special_chars then [CHR 0x5C, c] else [c]) s)"

definition match_escaped_placeholder :: "string \<Rightarrow> string option" where
  \<comment> \<open>the regex \<^verbatim>\<open>\\{([^}]+)\\}\<close> tried at the head of an escaped text: backslash, brace, the
      longest run without a closing brace, of which the last character is given back as the
      backslash before the closing brace; the result is the text after the match\<close>
  "match_escaped_placeholder s =
     (case s of
        c1 # c2 # t \<Rightarrow>
          if c1 = CHR 0x5C \<and> c2 = CHR ''{''
          then (let run = takeWhile (\<lambda>x. x \<noteq> CHR ''}'') t;
                    rest = dropWhile (\<lambda>x. x \<noteq> CHR ''}'') t
                in if length run \<ge> 2 \<and> last run = CHR 0x5C \<and> rest \<noteq> [] then Some (tl rest)
                   else None)
          else None
      | _ \<Rightarrow> None)"

lemma match_escaped_placeholder_shorter:
  "match_escaped_placeholder s = Some r \<Longrightarrow> length r < length s"
proof -
  assume a: "match_escaped_placeholder s = Some r"
  then obtain c1 c2 t where s: "s = c1 # c2 # t"
    by (cases s; cases "tl s") (auto simp: match_escaped_placeholder_def)
  from a s have r: "r = tl (dropWhile (\<lambda>x. x \<noteq> CHR ''}'') t)"
    by (auto simp: match_escaped_placeholder_def Let_def split: if_splits)
  have "length (dropWhile (\<lambda>x. x \<noteq> CHR ''}'') t) \<le> length t"
    by (rule length_dropWhile_le)
  with r s show ?thesis by simp
qed

function sub_escaped_placeholders :: "string \<Rightarrow> string" where
  \<comment> \<open>\<^verbatim>\<open>re.sub(r'\\{([^}]+)\\}', r'(.+?)', regex)\<close>\<close>
  "sub_escaped_placeholders [] = []"
| "sub_escaped_placeholders (c # cs) =
     (case match_escaped_placeholder (c # cs) of
        Some rest \<Rightarrow> ''(.+?)'' @ sub_escaped_placeholders rest
      | None \<Rightarrow> c # sub_escaped_placeholders cs)"
  by pat_completeness auto
termination
  by (relation "measure length") (auto dest: match_escaped_placeholder_shorter)

definition template_to_regex :: "string \<Rightarrow> string" where
  "template_to_regex tmpl =
     (let regex1 = re_escape tmpl;
          regex2 = sub_escaped_placeholders regex1;
          regex3 = replace_str ([CHR 0x5C] @ [CHR 0x27] @ ''s'') ([CHR 0x27] @ ''?s?'') regex2
      in ''^'' @ regex3 @ ''$'')"

function compile_rx :: "string \<Rightarrow> item list" where
  \<comment> \<open>the items of a regular expression text as the functions above produce it: the group
      \<^verbatim>\<open>(.+?)\<close>, a character or an escaped character, taken as a literal under IGNORECASE, and
      a question mark after it, which makes it optional\<close>
  "compile_rx [] = []"
| "compile_rx (c # cs) =
     (if starts_with ''(.+?)'' (c # cs)
        then Item (\<lambda>d. d \<noteq> CHR 0x0A) 1 True False True # compile_rx (drop 5 (c # cs))
      else (let a = (if c = CHR 0x5C \<and> cs \<noteq> [] then hd cs else c);
                r = (if c = CHR 0x5C \<and> cs \<noteq> [] then tl cs else cs)
            in if starts_with ''?'' r
               then Item (\<lambda>d. lower_char d = lower_char a) 0 False True False # compile_rx (tl r)
               else lit a # compile_rx r))"
  by pat_completeness auto
termination
  by (relation "measure length") (auto simp: Let_def split: if_splits)

definition re_match_anchored :: "string \<Rightarrow> string \<Rightarrow> string list option" where
  \<comment> \<open>\<^verbatim>\<open>re.match(regex, text, re.IGNORECASE)\<close> for a regex of the form \<^verbatim>\<open>^...$\<close>: the groups\<close>
  "re_match_anchored regex text = rx_match_anchored (compile_rx (butlast (tl regex))) text"

fun entities_from_groups ::
  "(string \<times> string) list \<Rightarrow> string list \<Rightarrow> string list \<Rightarrow> (string \<times> string) list" where
  \<comment> \<open>the loop \<^verbatim>\<open>for i, placeholder in enumerate(placeholders)\<close>, which stops filling at the
      number of groups; the first argument is the dictionary so far\<close>
  "entities_from_groups ents [] groups = ents"
| "entities_from_groups ents (placeholder # ps) [] = ents"
| "entities_from_groups ents (placeholder # ps) (g # gs) =
     entities_from_groups (AList.update placeholder (strip g) ents) ps gs"

definition extract_entities_from_match :: "string list \<Rightarrow> Pattern \<Rightarrow> (string \<times> string) list" where
  "extract_entities_from_match groups p =
     entities_from_groups [] (find_placeholders (template p)) groups"

definition try_exact_match :: "string \<Rightarrow> Pattern \<Rightarrow> error + MatchResult option" where
  "try_exact_match input_text p =
     (case re_match_anchored (template_to_regex (template p)) input_text of
        Some groups \<Rightarrow>
          (case MatchResult_new p 1 (extract_entities_from_match groups p) ''exact'' of
             Inl e \<Rightarrow> Inl e
           | Inr m \<Rightarrow> Inr (Some m))
      | None \<Rightarrow> Inr None)"

definition possessive_pattern :: Pattern where
  \<comment> \<open>the second pattern of the unit tests\<close>
  "possessive_pattern =
     \<lparr> pattern_id = ''test_002'', template = ''{person}'' @ [CHR 0x27] @ ''s meetings'',
       sparql_template = ''SELECT ?meeting WHERE { ?meeting kb:hasAttendee ?person }'',
       entity_types = [(''person'', ''foaf:Person'')], examples = [''John'' @ [CHR 0x27] @ ''s meetings''],
       confidence = 9 / 10, domain_class = ''kb:Meeting'', property = ''kb:hasAttendee'',
       pattern_keywords = [''meetings''] \<rparr>"

subsection \<open>Sequence similarity and float arithmetic (the Python library)\<close>

text \<open>
  \<^verbatim>\<open>SequenceMatcher(None, a, b).ratio()\<close> is a function of the Python library, not of this
  repository. The matcher takes it as a parameter, once for strings and once for lists
  of tokens. The arithmetic of Python on floats is a parameter as well: \<open>round_float\<close>
  gives the float nearest to a number, which is the value of a decimal literal such as
  \<^verbatim>\<open>0.7\<close>, of the division of two integers, and of a product, a sum or a quotient of two
  floats; \<open>sum_floats\<close> is the built-in \<^verbatim>\<open>sum\<close> on a list of floats. The floats themselves
  are rational numbers and are compared as such.

  \<open>sm_ratio\<close> is a model of the ratio after the documentation of difflib: the longest
  block common to both sequences (the earliest one in \<open>a\<close>, then in \<open>b\<close>), then the same
  on both sides of it; the ratio is twice the number of matched elements over the sum of
  the lengths. It leaves out the heuristic that difflib applies when \<open>b\<close> has 200 elements
  or more. \<open>difflib\<close> is this ratio together with the arithmetic that does not round.
\<close>

record similarity =
  ratio_str :: "string \<Rightarrow> string \<Rightarrow> rat"
  ratio_seq :: "string list \<Rightarrow> string list \<Rightarrow> rat"
  round_float :: "rat \<Rightarrow> rat"
  sum_floats :: "rat list \<Rightarrow> rat"

fun common_prefix_length :: "'a list \<Rightarrow> 'a list \<Rightarrow> nat" where
  "common_prefix_length (x # xs) (y # ys) = (if x = y then Suc (common_prefix_length xs ys) else 0)"
| "common_prefix_length xs ys = 0"

definition find_longest_match :: "'a list \<Rightarrow> 'a list \<Rightarrow> nat \<times> nat \<times> nat" where
  \<comment> \<open>\<open>(i, j, k)\<close> with \<open>a[i:i+k] == b[j:j+k]\<close>, \<open>k\<close> maximal, then \<open>i\<close> minimal, then \<open>j\<close> minimal\<close>
  "find_longest_match a b =
     foldl (\<lambda>(bi, bj, bk) (i, j).
              (let k = common_prefix_length (drop i a) (drop j b)
               in if k > bk then (i, j, k) else (bi, bj, bk)))
           (0, 0, 0)
           (concat (map (\<lambda>i. map (\<lambda>j. (i, j)) [0 ..< length b]) [0 ..< length a]))"

function matching_total :: "'a list \<Rightarrow> 'a list \<Rightarrow> nat" where
  \<comment> \<open>the sum of the sizes of the matching blocks; a block lies within both sequences\<close>
  "matching_total a b =
     (case find_longest_match a b of
        (i, j, k) \<Rightarrow>
          if k = 0 \<or> i + k > length a \<or> j + k > length b then 0
          else matching_total (take i a) (take j b) + k
               + matching_total (drop (i + k) a) (drop (j + k) b))"
  by pat_completeness auto
termination
  by (relation "measure (\<lambda>(a, b). length a + length b)") auto

definition sm_ratio :: "'a list \<Rightarrow> 'a list \<Rightarrow> rat" where
  "sm_ratio a b =
     (if length a + length b = 0 then 1
      else 2 * of_nat (matching_total a b) / of_nat (length a + length b))"

definition difflib :: similarity where
  "difflib = \<lparr> ratio_str = sm_ratio, ratio_seq = sm_ratio,
               round_float = (\<lambda>x. x), sum_floats = sum_list \<rparr>"

subsection \<open>PatternMatcher: tokens and fuzzy match (matcher.py)\<close>

fun tokens_from :: "string \<Rightarrow> bool \<Rightarrow> string \<Rightarrow> string list" where
  \<comment> \<open>\<^verbatim>\<open>re.findall(r"\w+(?:'\w+)?", s)\<close>, scanning left to right: the token being read, whether
      its apostrophe is already taken, the text left; an apostrophe belongs to the token
      when the token is not empty and a word character follows\<close>
  "tokens_from cur ap [] = (if cur = [] then [] else [cur])"
| "tokens_from cur ap (c # cs) =
     (if is_word_char c then tokens_from (cur @ [c]) ap cs
      else if c = CHR 0x27 \<and> cur \<noteq> [] \<and> \<not> ap \<and> (case cs of [] \<Rightarrow> False | d # ds \<Rightarrow> is_word_char d)
        then tokens_from (cur @ [c]) True cs
      else if cur = [] then tokens_from [] False cs
      else cur # tokens_from [] False cs)"

definition tokenize :: "string \<Rightarrow> string list" where
  "tokenize text = tokens_from [] False (lower text)"

function split_placeholder_parts :: "string \<Rightarrow> string \<Rightarrow> string list" where
  \<comment> \<open>\<^verbatim>\<open>re.split(r'({[^}]+})', s)\<close>: the texts between the placeholders and the placeholders,
      braces included, in turn; the first argument is the text read since the last
      placeholder\<close>
  "split_placeholder_parts cur [] = [cur]"
| "split_placeholder_parts cur (c # cs) =
     (case match_placeholder (c # cs) of
        Some (name, rest) \<Rightarrow> cur # (''{'' @ name @ ''}'') # split_placeholder_parts [] rest
      | None \<Rightarrow> split_placeholder_parts (cur @ [c]) cs)"
  by pat_completeness auto
termination
  by (relation "measure (\<lambda>(cur, s). length s)") (auto dest: match_placeholder_shorter)

datatype token = Placeholder string string | Word string
  \<comment> \<open>a placeholder with its name and its text; a word with its text\<close>

definition is_braced :: "string \<Rightarrow> bool" where
  \<comment> \<open>\<^verbatim>\<open>part.startswith('{') and part.endswith('}')\<close>\<close>
  "is_braced part = (starts_with ''{'' part \<and> ends_with ''}'' part)"

definition tokenize_template :: "string \<Rightarrow> token list" where
  "tokenize_template tmpl =
     concat (map (\<lambda>part.
                    if strip part \<noteq> []
                    then (if is_braced part then [Placeholder (butlast (tl part)) part]
                          else map Word (tokenize part))
                    else [])
                 (split_placeholder_parts [] tmpl))"

fun word_texts :: "token list \<Rightarrow> string list" where
  \<comment> \<open>\<^verbatim>\<open>[t['text'] for t in pattern_tokens if t['type'] == 'word']\<close>\<close>
  "word_texts [] = []"
| "word_texts (Word w # ts) = w # word_texts ts"
| "word_texts (Placeholder n t # ts) = word_texts ts"

fun word_similarities :: "similarity \<Rightarrow> string list \<Rightarrow> nat \<Rightarrow> string list \<Rightarrow> rat list" where
  \<comment> \<open>the loop \<^verbatim>\<open>for i, pattern_word in enumerate(pattern_words)\<close>, from index \<open>i\<close> on\<close>
  "word_similarities D input_tokens i [] = []"
| "word_similarities D input_tokens i (pattern_word # ws) =
     (if i < length input_tokens then ratio_str D (input_tokens ! i) pattern_word else 0)
       # word_similarities D input_tokens (i + 1) ws"

definition calculate_token_similarity :: "similarity \<Rightarrow> string list \<Rightarrow> token list \<Rightarrow> rat" where
  "calculate_token_similarity D input_tokens pattern_tokens =
     (let pattern_words = word_texts pattern_tokens
      in if pattern_words = [] then 0
         else (let seq_similarity = ratio_seq D (take (length pattern_words) input_tokens) pattern_words;
                   sims = word_similarities D input_tokens 0 pattern_words;
                   avg_word_similarity =
                     (if sims \<noteq> [] then round_float D (sum_floats D sims / of_nat (length sims))
                      else 0)
               in round_float D (round_float D (round_float D (4 / 10) * seq_similarity)
                                 + round_float D (round_float D (6 / 10) * avg_word_similarity))))"

subsection \<open>PatternMatcher: entity extraction for fuzzy matches (matcher.py)\<close>

fun positional_regex :: "string list \<Rightarrow> string" where
  \<comment> \<open>\<^verbatim>\<open>''.join(regex_parts)\<close> over the parts of the template\<close>
  "positional_regex [] = []"
| "positional_regex (part # parts) =
     (if is_braced part then ''(.+?)'' @ positional_regex parts
      else if part \<noteq> [] then re_escape part @ positional_regex parts
      else positional_regex parts)"

definition positional_placeholders :: "string list \<Rightarrow> string list" where
  "positional_placeholders parts = map (\<lambda>part. butlast (tl part)) (filter is_braced parts)"

definition extract_entities_positional :: "string \<Rightarrow> Pattern \<Rightarrow> (string \<times> string) list" where
  "extract_entities_positional input_text p =
     (let template_parts = split_placeholder_parts [] (template p);
          placeholders = positional_placeholders template_parts
      in if placeholders = [] then []
         else (case rx_search (compile_rx (positional_regex template_parts)) input_text of
                 Some (groups, rest) \<Rightarrow> entities_from_groups [] placeholders groups
               | None \<Rightarrow> []))"

fun find_sub :: "string \<Rightarrow> string \<Rightarrow> nat option" where
  \<comment> \<open>\<^verbatim>\<open>s.find(p)\<close>, written \<open>find_sub p s\<close>; \<open>None\<close> for \<^verbatim>\<open>-1\<close>\<close>
  "find_sub p [] = (if p = [] then Some 0 else None)"
| "find_sub p (c # cs) =
     (if starts_with p (c # cs) then Some 0 else map_option Suc (find_sub p cs))"

definition reconstruct_entity_from_tokens :: "string \<Rightarrow> string list \<Rightarrow> string" where
  \<comment> \<open>called with a non-empty list of tokens only\<close>
  "reconstruct_entity_from_tokens original_text tokens =
     (case tokens of
        [] \<Rightarrow> []
      | first_token # more_tokens \<Rightarrow>
          (case find_sub (lower first_token) (lower original_text) of
             Some token_pos \<Rightarrow>
               (let words = split_ws (drop token_pos original_text)
                in if length words \<ge> length tokens then join_with '' '' (take (length tokens) words)
                   else join_with '' '' tokens)
           | None \<Rightarrow> join_with '' '' tokens))"

fun placeholder_names :: "token list \<Rightarrow> string list" where
  "placeholder_names [] = []"
| "placeholder_names (Placeholder n t # ts) = n # placeholder_names ts"
| "placeholder_names (Word w # ts) = placeholder_names ts"

definition best_match_step ::
  "similarity \<Rightarrow> string \<Rightarrow> (nat option \<times> rat) \<Rightarrow> (nat \<times> string) \<Rightarrow> (nat option \<times> rat)" where
  \<comment> \<open>the body of the inner loop: \<^verbatim>\<open>best_match_idx\<close> (\<open>None\<close> for \<^verbatim>\<open>-1\<close>) and \<^verbatim>\<open>best_similarity\<close>\<close>
  "best_match_step D pattern_word st jt =
     (let sim = ratio_str D (snd jt) pattern_word
      in if sim > snd st \<and> sim > round_float D (6 / 10) then (Some (fst jt), sim) else st)"

definition best_match_index :: "similarity \<Rightarrow> string list \<Rightarrow> string list \<Rightarrow> nat option" where
  "best_match_index D pattern_words input_tokens =
     fst (foldl (\<lambda>st pattern_word.
                   foldl (best_match_step D pattern_word) st
                         (zip [0 ..< length input_tokens] input_tokens))
                (None, 0) pattern_words)"

definition extract_entities_fuzzy_flexible ::
  "similarity \<Rightarrow> string \<Rightarrow> Pattern \<Rightarrow> (string \<times> string) list" where
  "extract_entities_fuzzy_flexible D input_text p =
     (let input_tokens = tokenize input_text;
          pattern_tokens = tokenize_template (template p);
          placeholders = placeholder_names pattern_tokens;
          pattern_words = word_texts pattern_tokens
      in case placeholders of
           [single] \<Rightarrow>
             if length pattern_words \<ge> 1
             then (case best_match_index D pattern_words input_tokens of
                     None \<Rightarrow> []
                   | Some best_match_idx \<Rightarrow>
                       if best_match_idx + 1 < length input_tokens
                       then (let entity_tokens = drop (best_match_idx + 1) input_tokens
                             in if entity_tokens \<noteq> []
                                then [(single, reconstruct_entity_from_tokens input_text entity_tokens)]
                                else [])
                       else [])
             else []
         | _ \<Rightarrow> [])"

definition extract_entities_fuzzy :: "similarity \<Rightarrow> string \<Rightarrow> Pattern \<Rightarrow> (string \<times> string) list" where
  "extract_entities_fuzzy D input_text p =
     (let ents = extract_entities_positional input_text p
      in if ents = [] then extract_entities_fuzzy_flexible D input_text p else ents)"

subsection \<open>PatternMatcher: matching (matcher.py)\<close>

definition try_fuzzy_match ::
  "similarity \<Rightarrow> rat \<Rightarrow> string \<Rightarrow> Pattern \<Rightarrow> error + MatchResult option" where
  \<comment> \<open>the second argument is \<^verbatim>\<open>self.similarity_threshold\<close>\<close>
  "try_fuzzy_match D threshold input_text p =
     (let input_tokens = tokenize input_text;
          pattern_tokens = tokenize_template (template p);
          sim = calculate_token_similarity D input_tokens pattern_tokens
      in if sim \<ge> threshold
         then (case MatchResult_new p sim (extract_entities_fuzzy D input_text p) ''fuzzy'' of
                 Inl e \<Rightarrow> Inl e
               | Inr m \<Rightarrow> Inr (Some m))
         else Inr None)"

definition match_pattern ::
  "similarity \<Rightarrow> rat \<Rightarrow> string \<Rightarrow> Pattern \<Rightarrow> error + MatchResult option" where
  "match_pattern D threshold input_text p =
     (case try_exact_match input_text p of
        Inl e \<Rightarrow> Inl e
      | Inr (Some exact_match) \<Rightarrow> Inr (Some exact_match)
      | Inr None \<Rightarrow> try_fuzzy_match D threshold input_text p)"

fun collect_matches ::
  "similarity \<Rightarrow> rat \<Rightarrow> string \<Rightarrow> MatchResult list \<Rightarrow> Pattern list \<Rightarrow> error + MatchResult list" where
  \<comment> \<open>the loop \<^verbatim>\<open>for pattern in grammar.patterns\<close> of \<^verbatim>\<open>find_matches\<close>; the fourth argument
      is \<^verbatim>\<open>matches\<close>\<close>
  "collect_matches D threshold input_text matches [] = Inr matches"
| "collect_matches D threshold input_text matches (p # ps) =
     (case match_pattern D threshold input_text p of
        Inl e \<Rightarrow> Inl e
      | Inr None \<Rightarrow> collect_matches D threshold input_text matches ps
      | Inr (Some match_result) \<Rightarrow>
          if match_confidence match_result \<ge> threshold
          then collect_matches D threshold input_text (matches @ [match_result]) ps
          else collect_matches D threshold input_text matches ps)"

definition find_matches ::
  "similarity \<Rightarrow> rat \<Rightarrow> string \<Rightarrow> Grammar \<Rightarrow> error + MatchResult list" where
  \<comment> \<open>the sort is stable and descending: \<^verbatim>\<open>sort(key=..., reverse=True)\<close> keeps the order of
      results with equal confidence\<close>
  "find_matches D threshold input_text g =
     (case collect_matches D threshold input_text [] (patterns g) of
        Inl e \<Rightarrow> Inl e
      | Inr matches \<Rightarrow> Inr (sort_key (\<lambda>m. - match_confidence m) matches))"

definition calculate_keyword_similarity ::
  "similarity \<Rightarrow> string list \<Rightarrow> string list \<Rightarrow> rat" where
  "calculate_keyword_similarity D input_tokens kws =
     (if kws = [] then 0
      else round_float D (of_nat (length (filter (\<lambda>keyword. keyword \<in> set input_tokens) kws))
                          / of_nat (length kws)))"

definition pattern_suggestions :: "similarity \<Rightarrow> string list \<Rightarrow> Pattern \<Rightarrow> string list" where
  \<comment> \<open>what one round of the loop of \<^verbatim>\<open>suggest_corrections\<close> appends to \<^verbatim>\<open>suggestions\<close>\<close>
  "pattern_suggestions D input_tokens p =
     (if pattern_keywords p \<noteq> []
         \<and> calculate_keyword_similarity D input_tokens (pattern_keywords p)
             > round_float D (3 / 10)
      then take 2 (examples p) else [])
     @ (let pattern_words = tokenize (lower (template p))
        in if \<exists>token \<in> set input_tokens. token \<in> set pattern_words
           then take 1 (examples p) else [])"

definition suggest_corrections :: "similarity \<Rightarrow> string \<Rightarrow> Grammar \<Rightarrow> string list" where
  "suggest_corrections D input_text g =
     (let input_tokens = tokenize (lower input_text);
          suggestions = concat (map (pattern_suggestions D input_tokens) (patterns g))
      in take 5 (dedup_seen [] suggestions))"

subsection \<open>QueryRequest and QueryResponse (entities.py)\<close>

record QueryRequest =
  input_text :: string
  profile :: "string option"
  debug :: bool
  show_sparql :: bool
  limit :: "int option"
  named_graphs :: "string list option"
  default_graph :: "string option"

definition QueryRequest_new ::
  "string \<Rightarrow> string option \<Rightarrow> bool \<Rightarrow> bool \<Rightarrow> int option \<Rightarrow> string list option \<Rightarrow> string option
     \<Rightarrow> error + QueryRequest" where
  "QueryRequest_new t pr dbg sh lm ngs dg =
     (if strip t = [] then Inl (ValidationError ''Query input cannot be empty'')
      else if (case lm of None \<Rightarrow> False | Some n \<Rightarrow> n \<le> 0)
        then Inl (ValidationError ''Limit must be positive'')
      else Inr \<lparr> input_text = t, profile = pr, debug = dbg, show_sparql = sh, limit = lm,
                 named_graphs = ngs, default_graph = dg \<rparr>)"

record DebugInfo =
  \<comment> \<open>the dictionary \<^verbatim>\<open>debug_info\<close> of \<^verbatim>\<open>process_query\<close>, with its six keys\<close>
  debug_matched_pattern :: string
  debug_confidence :: rat
  debug_match_type :: string
  debug_extracted_entities :: "(string \<times> string) list"
  debug_pattern_id :: string
  debug_sparql_complexity :: nat

record QueryResponse =
  success :: bool
  sparql_query :: "string option"
  results :: "(string \<times> string) list list option"
  execution_time :: rat
  error_message :: "string option"
  suggestions :: "string list option"
  debug_info :: "DebugInfo option"

subsection \<open>QueryService.process_query (services/query.py)\<close>

definition failure_response :: "rat \<Rightarrow> error \<Rightarrow> QueryResponse" where
  \<comment> \<open>the handler \<^verbatim>\<open>except Exception as e\<close>\<close>
  "failure_response elapsed e =
     \<lparr> success = False, sparql_query = None, results = None, execution_time = elapsed,
       error_message = Some (error_message_of e), suggestions = None, debug_info = None \<rparr>"

definition process_query ::
  "similarity \<Rightarrow> Grammar \<Rightarrow> (string \<times> string) list \<Rightarrow> rat \<Rightarrow> QueryRequest \<Rightarrow> QueryResponse" where
  \<comment> \<open>The service holds the grammar, the namespaces and a matcher of threshold \<^verbatim>\<open>0.7\<close>, a
      float; the fourth argument is the value of \<^verbatim>\<open>time.time() - start_time\<close> when the
      response is built. The whole body is under \<^verbatim>\<open>try\<close>, so every error becomes a
      response.\<close>
  "process_query D g nss elapsed request =
     (case find_matches D (round_float D (7 / 10)) (input_text request) g of
        Inl e \<Rightarrow> failure_response elapsed e
      | Inr [] \<Rightarrow>
          \<lparr> success = False, sparql_query = None, results = None, execution_time = elapsed,
            error_message = Some (''Could not understand query: '' @ input_text request),
            suggestions = Some (suggest_corrections D (input_text request) g),
            debug_info = None \<rparr>
      | Inr (best_match # others) \<Rightarrow>
          (case build_query nss best_match (named_graphs request) (default_graph request) of
             Inl e \<Rightarrow> failure_response elapsed e
           | Inr built \<Rightarrow>
               (let q = (case limit request of
                           Some n \<Rightarrow> if n \<noteq> 0 then built\<lparr> query_text := add_limit (query_text built) n \<rparr>
                                     else built
                         | None \<Rightarrow> built)
                in \<lparr> success = True,
                     sparql_query = (if show_sparql request \<or> debug request then Some (query_text q)
                                     else None),
                     results = None, execution_time = elapsed, error_message = None,
                     suggestions = None,
                     debug_info =
                       (if debug request
                        then Some \<lparr> debug_matched_pattern = template (pattern best_match),
                                    debug_confidence = match_confidence best_match,
                                    debug_match_type = match_type best_match,
                                    debug_extracted_entities = entities best_match,
                                    debug_pattern_id = pattern_id (pattern best_match),
                                    debug_sparql_complexity = estimated_complexity q \<rparr>
                        else None) \<rparr>)))"

definition test_grammar :: Grammar where
  \<comment> \<open>the grammar of the unit tests of the matcher: its first two patterns\<close>
  "test_grammar = \<lparr> patterns = [sample_pattern, possessive_pattern], ontology_hash = ''test_hash'',
                    namespaces = [(''kb'', ''http://example.org/kb#'')], created_at = ''2025-08-06T12:00:00'' \<rparr>"

definition unrelated_request :: QueryRequest where
  \<comment> \<open>a request that no pattern of \<^const>\<open>test_grammar\<close> matches\<close>
  "unrelated_request =
     \<lparr> input_text = ''weather forecast with John'', profile = None, debug = False,
       show_sparql = False, limit = None, named_graphs = None, default_graph = None \<rparr>"

definition blended_score :: "similarity \<Rightarrow> string list \<Rightarrow> string list \<Rightarrow> rat" where
  \<comment> \<open>the score as the specification words it: 0.4 times the sequence ratio plus 0.6 times
      the mean of the ratios by position, in the arithmetic of floats\<close>
  "blended_score D toks ws =
     round_float D
       (round_float D (round_float D (4 / 10) * ratio_seq D (take (length ws) toks) ws)
        + round_float D
            (round_float D (6 / 10)
             * round_float D
                 (sum_floats D (map (\<lambda>i. if i < length toks then ratio_str D (toks ! i) (ws ! i)
                                           else 0) [0 ..< length ws])
                  / of_nat (length ws))))"

section \<open>Properties\<close>

lemmas char_defs = is_space_def is_digit_def is_word_char_def lower_char_def upper_chars_def
  uppercase_def lowercase_def lower_def upper_def
  strip_def lstrip_def rstrip_def split_ws_def

lemma length_remdups_eq_iff: "length xs = length (remdups xs) \<longleftrightarrow> distinct xs"
proof -
  have "(length xs = length (remdups xs)) = (length (remdups xs) = length xs)"
    by (rule eq_commute)
  then show ?thesis by simp
qed

subsection \<open>Grammar construction\<close>

text \<open>
  Claim C5. Constructing a Grammar with an empty pattern list, an empty ontology hash, or
  two patterns sharing the same id raises a ValidationError; every successfully
  constructed Grammar holds the given fields, has a non-empty pattern list, a non-empty
  hash and pairwise distinct pattern ids.
\<close>

theorem Grammar_new_validated:
  "(ps = [] \<or> h = [] \<or> \<not> distinct (map pattern_id ps)
      \<longrightarrow> (\<exists>m. Grammar_new ps h ns t = Inl (ValidationError m)))
   \<and> (\<forall>g. Grammar_new ps h ns t = Inr g
      \<longrightarrow> g = \<lparr> patterns = ps, ontology_hash = h, namespaces = ns, created_at = t \<rparr>
          \<and> patterns g \<noteq> [] \<and> ontology_hash g \<noteq> [] \<and> distinct (map pattern_id (patterns g)))"
  by (auto simp: Grammar_new_def validate_grammar_def Let_def length_remdups_eq_iff
           split: if_splits option.splits)

theorem Grammar_new_validated_witness:
  "(\<exists>m. Grammar_new [] ''test_hash'' [] ''2025'' = Inl (ValidationError m))
   \<and> (\<exists>m. Grammar_new [sample_pattern, sample_pattern] ''test_hash'' [] ''2025'' = Inl (ValidationError m))
   \<and> Grammar_new [sample_pattern] ''test_hash'' [] ''2025''
       = Inr \<lparr> patterns = [sample_pattern], ontology_hash = ''test_hash'', namespaces = [], created_at = ''2025'' \<rparr>"
proof -
  have a: "\<exists>m. Grammar_new [] ''test_hash'' [] ''2025'' = Inl (ValidationError m)"
    using Grammar_new_validated [of "[]" "''test_hash''" "[]" "''2025''"] by simp
  have b: "\<exists>m. Grammar_new [sample_pattern, sample_pattern] ''test_hash'' [] ''2025'' = Inl (ValidationError m)"
    using Grammar_new_validated [of "[sample_pattern, sample_pattern]" "''test_hash''" "[]" "''2025''"] by simp
  have c: "Grammar_new [sample_pattern] ''test_hash'' [] ''2025''
       = Inr \<lparr> patterns = [sample_pattern], ontology_hash = ''test_hash'', namespaces = [], created_at = ''2025'' \<rparr>"
    by (simp add: Grammar_new_def validate_grammar_def)
  from a b c show ?thesis by blast
qed

subsection \<open>Pattern construction\<close>

lemma all_dropWhile_iff: "(\<forall>x \<in> set (dropWhile P s). P x) \<longleftrightarrow> (\<forall>x \<in> set s. P x)"
  by (induction s) auto

lemma strip_empty_iff: "strip s = [] \<longleftrightarrow> (\<forall>c \<in> set s. is_space c)"
  by (simp add: strip_def lstrip_def rstrip_def dropWhile_eq_Nil_conv all_dropWhile_iff)

text \<open>
  Claim C4, amended. Constructing a Pattern whose template has no placeholder, or whose
  confidence lies outside \<open>[0,1]\<close>, or whose list of examples is empty, or whose SPARQL
  template is blank, raises a ValidationError; a Pattern that satisfies all of these
  constraints and whose id is not empty is constructed, with the keywords derived from
  its template.
\<close>

theorem Pattern_new_validated:
  "(\<not> has_entity_placeholders t \<or> \<not> (0 \<le> c \<and> c \<le> 1) \<or> ex = [] \<or> strip s = []
      \<longrightarrow> (\<exists>m. Pattern_new i t s et ex c d pr = Inl (ValidationError m)))
   \<and> (i \<noteq> [] \<and> has_entity_placeholders t \<and> 0 \<le> c \<and> c \<le> 1 \<and> ex \<noteq> [] \<and> strip s \<noteq> []
      \<longrightarrow> Pattern_new i t s et ex c d pr =
            Inr \<lparr> pattern_id = i, template = t, sparql_template = s, entity_types = et,
                  examples = ex, confidence = c, domain_class = d, property = pr,
                  pattern_keywords = extract_keywords t \<rparr>)"
  by (auto simp: Pattern_new_def validate_pattern_def Let_def)

text \<open>
  Claim C4 as stated fails: a Pattern with a placeholder, a confidence in range, an example
  and a non-blank SPARQL template is still rejected when its id is the empty string
  (the first check of \<^verbatim>\<open>Pattern.validate\<close>).
\<close>

theorem Pattern_new_empty_id_counterexample:
  "has_entity_placeholders ''meetings with {person}'' \<and> (0::rat) \<le> 19 / 20 \<and> (19 / 20 :: rat) \<le> 1
   \<and> [''meetings with John Smith''] \<noteq> []
   \<and> strip ''SELECT ?meeting WHERE { ?meeting kb:hasAttendee ?person }'' \<noteq> []
   \<and> Pattern_new [] ''meetings with {person}''
        ''SELECT ?meeting WHERE { ?meeting kb:hasAttendee ?person }''
        [(''person'', ''foaf:Person'')] [''meetings with John Smith''] (19 / 20)
        ''kb:Meeting'' ''kb:hasAttendee''
      = Inl (ValidationError ''Pattern ID cannot be empty'')"
  by (simp add: Pattern_new_def validate_pattern_def has_entity_placeholders_def
        match_placeholder_def char_defs)

theorem Pattern_new_validated_witness:
  "(\<exists>m. Pattern_new ''invalid'' ''meetings only'' ''SELECT * WHERE { ?s ?p ?o }'' []
          [''meetings only''] (1 / 2) ''kb:Meeting'' ''kb:hasAttendee'' = Inl (ValidationError m))
   \<and> Pattern_new ''test_001'' ''meetings with {person}''
        ''SELECT ?meeting WHERE { ?meeting kb:hasAttendee ?person }''
        [(''person'', ''foaf:Person'')] [''meetings with John Smith''] (19 / 20)
        ''kb:Meeting'' ''kb:hasAttendee'' = Inr sample_pattern"
proof -
  have np: "\<not> has_entity_placeholders ''meetings only''"
    by (simp add: has_entity_placeholders_def match_placeholder_def)
  have a: "\<exists>m. Pattern_new ''invalid'' ''meetings only'' ''SELECT * WHERE { ?s ?p ?o }'' []
          [''meetings only''] (1 / 2) ''kb:Meeting'' ''kb:hasAttendee'' = Inl (ValidationError m)"
    using np Pattern_new_validated [of "''meetings only''" "1 / 2" "[''meetings only'']"
        "''SELECT * WHERE { ?s ?p ?o }''" "''invalid''" "[]" "''kb:Meeting''" "''kb:hasAttendee''"]
    by blast
  have hp: "has_entity_placeholders ''meetings with {person}''"
    by (simp add: has_entity_placeholders_def match_placeholder_def)
  have ns: "strip ''SELECT ?meeting WHERE { ?meeting kb:hasAttendee ?person }'' \<noteq> []"
    by (simp add: char_defs)
  have kw: "extract_keywords ''meetings with {person}'' = [''meetings'']"
    by (simp add: extract_keywords_def match_placeholder_def stop_words_def char_defs)
  have b: "Pattern_new ''test_001'' ''meetings with {person}''
        ''SELECT ?meeting WHERE { ?meeting kb:hasAttendee ?person }''
        [(''person'', ''foaf:Person'')] [''meetings with John Smith''] (19 / 20)
        ''kb:Meeting'' ''kb:hasAttendee'' = Inr sample_pattern"
    using hp ns kw Pattern_new_validated [of "''meetings with {person}''" "19 / 20"
        "[''meetings with John Smith'']"
        "''SELECT ?meeting WHERE { ?meeting kb:hasAttendee ?person }''" "''test_001''"
        "[(''person'', ''foaf:Person'')]" "''kb:Meeting''" "''kb:hasAttendee''"]
    by (simp add: sample_pattern_def)
  from a b show ?thesis by blast
qed

subsection \<open>add\_limit\<close>

lemmas add_limit_defs = add_limit_def limit_clause_at_def ends_with_def rfind_def str_int_def nl_def

lemma limit_clause_no_brace: "limit_clause_at s \<Longrightarrow> CHR ''}'' \<notin> set s"
proof -
  assume a: "limit_clause_at s"
  define r1 where "r1 = dropWhile is_space s"
  define r2 where "r2 = drop 5 r1"
  define r3 where "r3 = dropWhile is_space r2"
  define r4 where "r4 = dropWhile is_digit r3"
  have s: "s = takeWhile is_space s @ take 5 r1 @ takeWhile is_space r2 @ takeWhile is_digit r3 @ r4"
    by (simp add: r1_def r2_def r3_def r4_def)
  have nsp: "\<not> is_space CHR ''}''" by (simp add: is_space_def)
  have ndg: "\<not> is_digit CHR ''}''" by (simp add: is_digit_def)
  have low: "lower_char CHR ''}'' = CHR ''}''" by (simp add: char_defs)
  from a have kw: "lower (take 5 r1) = ''limit''" and r4: "list_all is_space r4"
    by (simp_all add: limit_clause_at_def Let_def r1_def r2_def r3_def r4_def)
  have k: "CHR ''}'' \<notin> set (take 5 r1)"
  proof
    assume "CHR ''}'' \<in> set (take 5 r1)"
    then have "lower_char CHR ''}'' \<in> set (lower (take 5 r1))" by (simp add: lower_def)
    with kw low show False by simp
  qed
  have 1: "CHR ''}'' \<notin> set (takeWhile is_space s)" using nsp by (auto dest: set_takeWhileD)
  have 2: "CHR ''}'' \<notin> set (takeWhile is_space r2)" using nsp by (auto dest: set_takeWhileD)
  have 3: "CHR ''}'' \<notin> set (takeWhile is_digit r3)" using ndg by (auto dest: set_takeWhileD)
  have 4: "CHR ''}'' \<notin> set r4" using r4 nsp by (auto simp: list_all_iff)
  have "CHR ''}'' \<notin> set (takeWhile is_space s @ take 5 r1 @ takeWhile is_space r2 @ takeWhile is_digit r3 @ r4)"
    using 1 k 2 3 4 by simp
  with s show ?thesis by metis
qed

lemma sub_limit_split: "\<exists>rest. s = sub_limit s @ rest \<and> CHR ''}'' \<notin> set rest"
proof (induction s)
  case Nil
  then show ?case by simp
next
  case (Cons c cs)
  show ?case
  proof (cases "limit_clause_at (c # cs)")
    case True
    then show ?thesis using limit_clause_no_brace [OF True] by auto
  next
    case False
    then show ?thesis using Cons by auto
  qed
qed

lemma rstrip_split: "\<exists>rest. s = rstrip s @ rest \<and> CHR ''}'' \<notin> set rest"
proof -
  have nsp: "\<not> is_space CHR ''}''" by (simp add: is_space_def)
  have "rev s = takeWhile is_space (rev s) @ dropWhile is_space (rev s)" by simp
  then have "s = rev (dropWhile is_space (rev s)) @ rev (takeWhile is_space (rev s))"
    by (metis rev_append rev_rev_ident)
  moreover have "CHR ''}'' \<notin> set (rev (takeWhile is_space (rev s)))"
    using nsp by (auto dest: set_takeWhileD)
  ultimately show ?thesis unfolding rstrip_def by blast
qed

lemma rfind_split:
  assumes "c \<in> set s"
  shows "\<exists>i pre post. rfind c s = Some i \<and> s = pre @ c # post \<and> c \<notin> set post
           \<and> take (i + 1) s = pre @ [c] \<and> i = length pre"
proof -
  define r where "r = dropWhile (\<lambda>x. x \<noteq> c) (rev s)"
  define t where "t = takeWhile (\<lambda>x. x \<noteq> c) (rev s)"
  have rs: "rev s = t @ r" by (simp add: r_def t_def)
  from assms have rne: "r \<noteq> []" by (auto simp: r_def dropWhile_eq_Nil_conv)
  then have hd: "hd r = c" unfolding r_def using hd_dropWhile by (metis (full_types))
  from rne hd obtain r' where r: "r = c # r'" by (cases r) auto
  have s: "s = rev r' @ c # rev t" using rs r by (metis append_Cons append_Nil append_assoc rev.simps(2) rev_append rev_swap)
  have nt: "c \<notin> set (rev t)" by (auto simp: t_def dest: set_takeWhileD)
  have rf: "rfind c s = Some (length r')" using rne r by (simp add: rfind_def r_def [symmetric])
  have "take (length r' + 1) s = rev r' @ [c]" using s by simp
  moreover have "length r' = length (rev r')" by simp
  ultimately show ?thesis using rf s nt by blast
qed

lemma ends_with_brace: "ends_with ''}'' s \<longleftrightarrow> (\<exists>pre. s = pre @ ''}'')"
proof (cases "rev s")
  case Nil
  then show ?thesis by (simp add: ends_with_def)
next
  case (Cons a list)
  then have "s = rev list @ [a]" by (metis rev.simps(2) rev_rev_ident)
  then show ?thesis using Cons by (auto simp: ends_with_def)
qed

text \<open>
  Claim C10. For every query text that contains a closing brace, \<^verbatim>\<open>add_limit\<close> returns the
  text cut right after its last closing brace, followed by a newline and \<^verbatim>\<open>LIMIT n\<close>:
  whatever followed the last brace (an \<^verbatim>\<open>ORDER BY\<close> clause as much as an old
  \<^verbatim>\<open>LIMIT\<close>) is deleted.
\<close>

theorem add_limit_truncates:
  assumes "CHR ''}'' \<in> set q"
  shows "\<exists>pre post. q = pre @ ''}'' @ post \<and> CHR ''}'' \<notin> set post
           \<and> add_limit q n = pre @ ''}'' @ nl @ ''LIMIT '' @ str_int n"
proof -
  obtain r1 where r1: "q = sub_limit q @ r1" "CHR ''}'' \<notin> set r1"
    using sub_limit_split by blast
  obtain r2 where r2: "sub_limit q = rstrip (sub_limit q) @ r2" "CHR ''}'' \<notin> set r2"
    using rstrip_split by blast
  define s2 where "s2 = rstrip (sub_limit q)"
  define s3 where "s3 = (if \<not> ends_with ''}'' s2
                then (case rfind CHR ''}'' s2 of
                        Some last_brace \<Rightarrow> take (last_brace + 1) s2
                      | None \<Rightarrow> s2)
                else s2)"
  have q: "q = s2 @ r2 @ r1" using r1(1) r2(1) by (metis append_assoc s2_def)
  with assms r1 r2 have in2: "CHR ''}'' \<in> set s2" by (metis Un_iff set_append)
  have "\<exists>pre post. s2 = pre @ ''}'' @ post \<and> CHR ''}'' \<notin> set post
          \<and> s3 = pre @ ''}''"
  proof (cases "ends_with ''}'' s2")
    case True
    then obtain pre where "s2 = pre @ ''}''" using ends_with_brace by blast
    then show ?thesis using True by (auto simp: s3_def)
  next
    case False
    from rfind_split [OF in2] obtain i pre post where
      "rfind CHR ''}'' s2 = Some i" "s2 = pre @ CHR ''}'' # post" "CHR ''}'' \<notin> set post"
      "take (i + 1) s2 = pre @ ''}''" by blast
    then show ?thesis using False by (auto simp: s3_def)
  qed
  then obtain pre post where p: "s2 = pre @ ''}'' @ post" "CHR ''}'' \<notin> set post"
      "s3 = pre @ ''}''" by blast
  have al: "add_limit q n = s3 @ nl @ ''LIMIT '' @ str_int n"
    unfolding add_limit_def s3_def s2_def Let_def by simp
  have "q = pre @ ''}'' @ (post @ r2 @ r1)" using q p by simp
  moreover have "CHR ''}'' \<notin> set (post @ r2 @ r1)" using p r1 r2 by simp
  moreover have "add_limit q n = pre @ ''}'' @ nl @ ''LIMIT '' @ str_int n" using al p by simp
  ultimately show ?thesis by blast
qed

theorem add_limit_truncates_witness:
  "CHR ''}'' \<in> set ''SELECT ?x WHERE { ?x a ?y } ORDER BY ?x''
   \<and> (\<exists>pre post. ''SELECT ?x WHERE { ?x a ?y } ORDER BY ?x'' = pre @ ''}'' @ post
          \<and> CHR ''}'' \<notin> set post
          \<and> add_limit ''SELECT ?x WHERE { ?x a ?y } ORDER BY ?x'' 10
              = pre @ ''}'' @ nl @ ''LIMIT '' @ str_int 10)
   \<and> add_limit ''SELECT ?x WHERE { ?x a ?y } ORDER BY ?x'' 10
       = ''SELECT ?x WHERE { ?x a ?y }'' @ nl @ ''LIMIT 10''"
proof -
  have h: "CHR ''}'' \<in> set ''SELECT ?x WHERE { ?x a ?y } ORDER BY ?x''" by simp
  have v: "add_limit ''SELECT ?x WHERE { ?x a ?y } ORDER BY ?x'' 10
       = ''SELECT ?x WHERE { ?x a ?y }'' @ nl @ ''LIMIT 10''"
    by (simp add: add_limit_defs char_defs)
  from h add_limit_truncates [OF h, of 10] v show ?thesis by blast
qed

subsection \<open>optimize\_query\<close>

lemmas optimize_defs = optimize_query_def classify_line_def split_nl_def nl_def

text \<open>
  Claim C9 says that \<^verbatim>\<open>optimize_query\<close> only moves triple-pattern lines before FILTER
  lines and leaves every other line, braces included, in place. On the five-line query
  \<^const>\<open>datatype_query\<close>, whose triple pattern already precedes its FILTER, the claim
  makes the result the query itself. The code returns the query without the line of the
  closing brace: the loop that looks for the remaining lines skips the lines after
  \<^verbatim>\<open>WHERE\<close> that are blank or a lone brace, and they are never added back. The query
  passes \<^verbatim>\<open>validate_sparql\<close>, the result does not.
\<close>

theorem optimize_query_drops_closing_brace:
  "split_nl datatype_query =
     [''SELECT ?todo'', ''WHERE {'', ''  ?todo <http://e/tag> ?tag .'',
      ''  FILTER (lcase(str(?tag)) = lcase(\"x\"))'', ''}'']
   \<and> validate_sparql datatype_query
   \<and> optimize_query datatype_query =
       Inr (join_with nl
         [''SELECT ?todo'', ''WHERE {'', ''  ?todo <http://e/tag> ?tag .'',
          ''  FILTER (lcase(str(?tag)) = lcase(\"x\"))''])
   \<and> optimize_query datatype_query \<noteq> Inr datatype_query
   \<and> \<not> validate_sparql (join_with nl
         [''SELECT ?todo'', ''WHERE {'', ''  ?todo <http://e/tag> ?tag .'',
          ''  FILTER (lcase(str(?tag)) = lcase(\"x\"))''])"
  by (simp add: datatype_query_def optimize_defs validate_sparql_def char_defs)

subsection \<open>build\_query: validation\<close>

lemmas builder_text_defs = generated_text_def escape_sparql_string_def add_namespaces_def
  add_graph_clauses_def graphs_to_query_def where_at_def truthy_list_def graph_block_def indent_content_def split_nl_def
  nl_def rfind_def

lemma contains_hd_in_set: "contains (x # xs) t \<Longrightarrow> x \<in> set t"
  by (induction t) auto

lemma lowercase_not_space: "c \<in> set lowercase \<Longrightarrow> \<not> is_space c"
  unfolding lowercase_def by (auto simp: is_space_def)

lemma upper_chars_space: "is_space c \<Longrightarrow> upper_chars c = [c]"
proof -
  assume sp: "is_space c"
  have "map_of (zip lowercase uppercase) c = None"
  proof (cases "map_of (zip lowercase uppercase) c")
    case None
    then show ?thesis .
  next
    case (Some d)
    then have "(c, d) \<in> set (zip lowercase uppercase)" by (rule map_of_SomeD)
    then have "c \<in> set lowercase" by (rule set_zip_leftD)
    with sp lowercase_not_space show ?thesis by blast
  qed
  moreover have "c \<noteq> CHR 0xDF" using sp by (auto simp: is_space_def)
  ultimately show ?thesis by (simp add: upper_chars_def)
qed

lemma upper_blank: "\<forall>c \<in> set s. is_space c \<Longrightarrow> upper s = s"
  unfolding upper_def by (induction s) (simp_all add: upper_chars_space)

lemma validate_sparql_keyword:
  "validate_sparql s \<Longrightarrow>
    contains ''SELECT'' (upper s) \<or> contains ''CONSTRUCT'' (upper s) \<or> contains ''ASK'' (upper s)
       \<or> contains ''DESCRIBE'' (upper s)"
  unfolding validate_sparql_def Let_def by (simp split: if_splits)

lemma validate_sparql_not_blank:
  assumes "validate_sparql s"
  shows "strip s \<noteq> []"
proof
  assume "strip s = []"
  then have sp: "\<forall>c \<in> set s. is_space c" by (simp add: strip_empty_iff)
  then have us: "upper s = s" by (rule upper_blank)
  have k: "CHR ''S'' \<in> set s \<or> CHR ''C'' \<in> set s \<or> CHR ''A'' \<in> set s \<or> CHR ''D'' \<in> set s"
    using validate_sparql_keyword [OF assms] unfolding us
    by (blast dest: contains_hd_in_set)
  have n: "\<not> is_space CHR ''S''" "\<not> is_space CHR ''C''" "\<not> is_space CHR ''A''" "\<not> is_space CHR ''D''"
    by (simp_all add: is_space_def)
  from k n sp show False by blast
qed


lemma validate_sparql_unfold:
  "validate_sparql t \<longleftrightarrow>
     (\<exists>keyword \<in> set [''SELECT'', ''CONSTRUCT'', ''ASK'', ''DESCRIBE'']. contains keyword (upper t))
        \<and> (contains ''SELECT'' (upper t) \<longrightarrow> contains ''WHERE'' (upper t))
        \<and> count_list t CHR ''{'' = count_list t CHR ''}''
        \<and> count_list t CHR ''('' = count_list t CHR '')''"
  unfolding validate_sparql_def Let_def by metis

lemma build_query_invalid:
  "\<not> validate_sparql (generated_text nss mr ng dg) \<Longrightarrow>
   build_query nss mr ng dg =
     Inl (SPARQLError (''Invalid SPARQL generated: '' @ take 100 (generated_text nss mr ng dg) @ ''...'') None)"
  unfolding build_query_def Let_def by simp

lemma build_query_valid:
  assumes "validate_sparql (generated_text nss mr ng dg)"
  shows "build_query nss mr ng dg =
     Inr \<lparr> query_text = generated_text nss mr ng dg,
           variables = extract_variables (generated_text nss mr ng dg),
           estimated_complexity = estimate_complexity (generated_text nss mr ng dg),
           optimization_applied = False \<rparr>"
proof -
  have "strip (generated_text nss mr ng dg) \<noteq> []"
    using assms by (rule validate_sparql_not_blank)
  then show ?thesis using assms unfolding build_query_def Let_def SPARQLQuery_new_def by simp
qed

text \<open>
  Claim C2, amended. For every MatchResult, \<^verbatim>\<open>build_query\<close> either returns a SPARQLQuery whose
  text is the generated text and passes the structural validation (one of SELECT,
  CONSTRUCT, ASK, DESCRIBE occurs in the upper-cased text, WHERE occurs there whenever
  SELECT does, the text has as many opening as closing braces and as many opening as
  closing parentheses), or raises a SPARQLError whose message is
  \<^verbatim>\<open>Invalid SPARQL generated:\<close> followed by the first 100 characters of the generated text,
  which fails the validation, and three dots; a text that fails the validation is never
  returned.
\<close>

theorem build_query_valid_or_error:
  "(validate_sparql (generated_text nss mr ng dg)
      \<and> (\<exists>q. build_query nss mr ng dg = Inr q
             \<and> query_text q = generated_text nss mr ng dg
             \<and> (\<exists>keyword \<in> set [''SELECT'', ''CONSTRUCT'', ''ASK'', ''DESCRIBE''].
                   contains keyword (upper (query_text q)))
             \<and> (contains ''SELECT'' (upper (query_text q))
                  \<longrightarrow> contains ''WHERE'' (upper (query_text q)))
             \<and> count_list (query_text q) CHR ''{'' = count_list (query_text q) CHR ''}''
             \<and> count_list (query_text q) CHR ''('' = count_list (query_text q) CHR '')''))
   \<or> (\<not> validate_sparql (generated_text nss mr ng dg)
        \<and> build_query nss mr ng dg
            = Inl (SPARQLError (''Invalid SPARQL generated: ''
                                  @ take 100 (generated_text nss mr ng dg) @ ''...'') None))"
proof (cases "validate_sparql (generated_text nss mr ng dg)")
  case False
  then show ?thesis using build_query_invalid [OF False] by blast
next
  case True
  define t where "t = generated_text nss mr ng dg"
  define q where "q = \<lparr> query_text = t, variables = extract_variables t,
             estimated_complexity = estimate_complexity t, optimization_applied = False \<rparr>"
  have r: "build_query nss mr ng dg = Inr q"
    unfolding q_def t_def by (rule build_query_valid [OF True])
  have qt: "query_text q = t" by (simp add: q_def)
  from True have u:
    "(\<exists>keyword \<in> set [''SELECT'', ''CONSTRUCT'', ''ASK'', ''DESCRIBE'']. contains keyword (upper t))
      \<and> (contains ''SELECT'' (upper t) \<longrightarrow> contains ''WHERE'' (upper t))
      \<and> count_list t CHR ''{'' = count_list t CHR ''}''
      \<and> count_list t CHR ''('' = count_list t CHR '')''"
    unfolding t_def by (rule iffD1 [OF validate_sparql_unfold])
  have "\<exists>q. build_query nss mr ng dg = Inr q
             \<and> query_text q = t
             \<and> (\<exists>keyword \<in> set [''SELECT'', ''CONSTRUCT'', ''ASK'', ''DESCRIBE''].
                   contains keyword (upper (query_text q)))
             \<and> (contains ''SELECT'' (upper (query_text q))
                  \<longrightarrow> contains ''WHERE'' (upper (query_text q)))
             \<and> count_list (query_text q) CHR ''{'' = count_list (query_text q) CHR ''}''
             \<and> count_list (query_text q) CHR ''('' = count_list (query_text q) CHR '')''"
    using r u unfolding qt [symmetric] by blast
  with True show ?thesis unfolding t_def by blast
qed

text \<open>
  Claim C2 as stated fails in two of its parts. The error does not carry the offending
  query text: for a generated text of 124 characters with a missing closing brace, the
  \<^verbatim>\<open>sparql_query\<close> attribute of the SPARQLError is unset and its message, which holds the
  first 100 characters only, does not contain the text. And the validation counts the
  braces, it does not pair them: a text whose closing brace comes before its opening
  brace is returned as a valid query.
\<close>

theorem build_query_error_truncated_counterexample:
  "generated_text [] unclosed_match_result None None = unclosed_template
   \<and> \<not> validate_sparql unclosed_template
   \<and> build_query [] unclosed_match_result None None
       = Inl (SPARQLError (''Invalid SPARQL generated: '' @ take 100 unclosed_template @ ''...'') None)
   \<and> \<not> contains unclosed_template
          (''Invalid SPARQL generated: '' @ take 100 unclosed_template @ ''...'')
   \<and> build_query [] swapped_match_result None None
       = Inr \<lparr> query_text = ''SELECT ?x WHERE } ?x a ?y {'', variables = [''x''],
               estimated_complexity = 1, optimization_applied = False \<rparr>"
proof -
  have g: "generated_text [] unclosed_match_result None None = unclosed_template"
    by (simp add: builder_text_defs unclosed_match_result_def sample_pattern_def
          unclosed_template_def)
  have v: "\<not> validate_sparql unclosed_template"
    by (simp add: validate_sparql_def unclosed_template_def char_defs)
  have b: "build_query [] unclosed_match_result None None
       = Inl (SPARQLError (''Invalid SPARQL generated: '' @ take 100 unclosed_template @ ''...'') None)"
    using build_query_invalid [of "[]" unclosed_match_result None None] g v by simp
  have c: "\<not> contains unclosed_template
          (''Invalid SPARQL generated: '' @ take 100 unclosed_template @ ''...'')"
    by (simp add: unclosed_template_def)
  have s: "build_query [] swapped_match_result None None
       = Inr \<lparr> query_text = ''SELECT ?x WHERE } ?x a ?y {'', variables = [''x''],
               estimated_complexity = 1, optimization_applied = False \<rparr>"
    by code_simp
  from g v b c s show ?thesis by blast
qed

theorem build_query_valid_or_error_witness:
  "validate_sparql (generated_text [(''kb'', ''http://example.org/kb#'')] exact_match_result None None)
   \<and> (\<exists>q. build_query [(''kb'', ''http://example.org/kb#'')] exact_match_result None None = Inr q
        \<and> query_text q
            = ''PREFIX kb: <http://example.org/kb#>'' @ nl
              @ ''SELECT ?meeting WHERE { ?meeting kb:hasAttendee ?person }''
        \<and> contains ''SELECT'' (upper (query_text q))
        \<and> contains ''WHERE'' (upper (query_text q))
        \<and> count_list (query_text q) CHR ''{'' = 1 \<and> count_list (query_text q) CHR ''}'' = 1)
   \<and> \<not> validate_sparql (generated_text [] unclosed_match_result None None)
   \<and> build_query [] unclosed_match_result None None
       = Inl (SPARQLError (''Invalid SPARQL generated: '' @ take 100 unclosed_template @ ''...'') None)"
proof -
  define gt where "gt = ''PREFIX kb: <http://example.org/kb#>'' @ nl
              @ ''SELECT ?meeting WHERE { ?meeting kb:hasAttendee ?person }''"
  have g: "generated_text [(''kb'', ''http://example.org/kb#'')] exact_match_result None None = gt"
    unfolding gt_def
    by (simp add: builder_text_defs exact_match_result_def sample_pattern_def char_defs)
  have v: "validate_sparql (generated_text [(''kb'', ''http://example.org/kb#'')] exact_match_result None None)"
    unfolding g gt_def by (simp add: validate_sparql_def nl_def char_defs)
  have k: "contains ''SELECT'' (upper gt) \<and> contains ''WHERE'' (upper gt)
           \<and> count_list gt CHR ''{'' = 1 \<and> count_list gt CHR ''}'' = 1"
    unfolding gt_def by (simp add: nl_def char_defs)
  have g2: "generated_text [] unclosed_match_result None None = unclosed_template"
    by (simp add: builder_text_defs unclosed_match_result_def sample_pattern_def
          unclosed_template_def)
  have v2: "\<not> validate_sparql (generated_text [] unclosed_match_result None None)"
    unfolding g2 by (simp add: validate_sparql_def unclosed_template_def char_defs)
  from build_query_valid_or_error
         [of "[(''kb'', ''http://example.org/kb#'')]" exact_match_result None None] v
  have r: "\<exists>q. build_query [(''kb'', ''http://example.org/kb#'')] exact_match_result None None = Inr q
             \<and> query_text q = gt" unfolding g by blast
  from build_query_valid_or_error [of "[]" unclosed_match_result None None] v2
  have e: "build_query [] unclosed_match_result None None
       = Inl (SPARQLError (''Invalid SPARQL generated: '' @ take 100 unclosed_template @ ''...'') None)"
    unfolding g2 by blast
  from r k have "\<exists>q. build_query [(''kb'', ''http://example.org/kb#'')] exact_match_result None None = Inr q
        \<and> query_text q = gt
        \<and> contains ''SELECT'' (upper (query_text q))
        \<and> contains ''WHERE'' (upper (query_text q))
        \<and> count_list (query_text q) CHR ''{'' = 1 \<and> count_list (query_text q) CHR ''}'' = 1"
    by auto
  with v v2 e show ?thesis unfolding gt_def by blast
qed

subsection \<open>build\_query: graph clauses\<close>

lemma where_at_split:
  assumes "where_at s = Some (body, post)"
  shows "\<exists>w ws. s = w @ ws @ ''{'' @ body @ ''}'' @ post \<and> lower w = ''where''
           \<and> (\<forall>c \<in> set ws. is_space c) \<and> CHR ''}'' \<notin> set post"
proof -
  define r where "r = dropWhile is_space (drop 5 s)"
  from assms have lw: "lower (take 5 s) = ''where''"
    by (simp add: where_at_def split: if_splits)
  from assms lw obtain b where r: "r = CHR ''{'' # b"
    and rf: "(case rfind CHR ''}'' b of None \<Rightarrow> None | Some j \<Rightarrow> Some (take j b, drop (j + 1) b))
               = Some (body, post)"
    by (auto simp: where_at_def r_def split: list.splits if_splits)
  from rf obtain j where j: "rfind CHR ''}'' b = Some j" "body = take j b" "post = drop (j + 1) b"
    by (auto split: option.splits)
  from j(1) have "CHR ''}'' \<in> set b"
    by (auto simp: rfind_def Let_def dropWhile_eq_Nil_conv split: if_splits)
  from rfind_split [OF this] j(1) obtain pre' post' where
    b: "b = pre' @ CHR ''}'' # post'" "CHR ''}'' \<notin> set post'" and lj: "j = length pre'"
    by auto
  have body: "body = pre'" using j(2) b(1) lj by simp
  have post: "post = post'" using j(3) b(1) lj by simp
  have "s = take 5 s @ drop 5 s" by simp
  also have "drop 5 s = takeWhile is_space (drop 5 s) @ r" by (simp add: r_def)
  finally have "s = take 5 s @ takeWhile is_space (drop 5 s) @ ''{'' @ body @ ''}'' @ post"
    using r b(1) body post by simp
  moreover have "\<forall>c \<in> set (takeWhile is_space (drop 5 s)). is_space c"
    by (auto dest: set_takeWhileD)
  ultimately show ?thesis using lw b(2) post by blast
qed

lemma where_search_split:
  "where_search acc s = Some (pre, body, post) \<Longrightarrow>
     \<exists>w ws. acc @ s = pre @ w @ ws @ ''{'' @ body @ ''}'' @ post \<and> lower w = ''where''
           \<and> (\<forall>c \<in> set ws. is_space c) \<and> CHR ''}'' \<notin> set post"
proof (induction s arbitrary: acc)
  case Nil
  then show ?case by simp
next
  case (Cons c cs)
  show ?case
  proof (cases "where_at (c # cs)")
    case None
    with Cons.prems have "where_search (acc @ [c]) cs = Some (pre, body, post)" by simp
    from Cons.IH [OF this] show ?thesis by simp
  next
    case (Some m)
    with Cons.prems have m: "where_at (c # cs) = Some (body, post)" and "pre = acc"
      by (auto split: prod.splits)
    from where_at_split [OF m] \<open>pre = acc\<close> show ?thesis by auto
  qed
qed

lemma starts_with_sep: "c \<notin> set p \<Longrightarrow> starts_with p (xs @ c # ys) = starts_with p xs"
  by (induction p xs rule: starts_with.induct) auto

lemma count_sub_sep:
  "c \<notin> set p \<Longrightarrow> p \<noteq> [] \<Longrightarrow> count_sub p (xs @ c # ys) = count_sub p xs + count_sub p ys"
proof (induction xs)
  case Nil
  then obtain a ps where "p = a # ps" by (cases p) auto
  with Nil show ?case by auto
next
  case (Cons x xs)
  have "starts_with p ((x # xs) @ c # ys) = starts_with p (x # xs)"
    using Cons.prems(1) by (rule starts_with_sep)
  with Cons show ?case by simp
qed

lemma count_sub_seps:
  "set l \<inter> set p = {} \<Longrightarrow> p \<noteq> [] \<Longrightarrow> l \<noteq> [] \<Longrightarrow>
   count_sub p (xs @ l @ ys) = count_sub p xs + count_sub p ys"
proof (induction l arbitrary: xs)
  case Nil
  then show ?case by simp
next
  case (Cons c l)
  have c: "c \<notin> set p" using Cons.prems(1) by auto
  show ?case
  proof (cases "l = []")
    case True
    then show ?thesis using count_sub_sep [OF c Cons.prems(2)] by simp
  next
    case False
    have "count_sub p (xs @ (c # l) @ ys) = count_sub p xs + count_sub p (l @ ys)"
      using count_sub_sep [OF c Cons.prems(2), of xs "l @ ys"] by simp
    moreover have "count_sub p ([] @ l @ ys) = count_sub p [] + count_sub p ys"
      using Cons.prems False by (intro Cons.IH) auto
    ultimately show ?thesis by simp
  qed
qed

lemma count_sub_zero: "\<not> contains p s \<Longrightarrow> count_sub p s = 0"
  by (induction s) auto

lemma union_block_count:
  assumes "\<not> contains ''UNION'' g1" "\<not> contains ''UNION'' g2" "\<not> contains ''UNION'' c"
  shows "count_sub ''UNION''
           (nl @ (''  {'' @ nl @ ''    GRAPH <'' @ g1 @ ''> {'' @ nl @ ''      '' @ c @ nl @ ''    }'' @ nl @ ''  }'')
               @ nl @ ''  UNION'' @ nl
               @ (''  {'' @ nl @ ''    GRAPH <'' @ g2 @ ''> {'' @ nl @ ''      '' @ c @ nl @ ''    }'' @ nl @ ''  }'')
               @ nl) = 1"
proof -
  let ?p = "''UNION''"
  define L1 where "L1 = nl @ ''  {'' @ nl @ ''    GRAPH <''"
  define L2 where "L2 = ''> {'' @ nl @ ''      ''"
  define L3 where "L3 = nl @ ''    }'' @ nl @ ''  }'' @ nl @ ''  ''"
  define L4 where "L4 = nl @ ''  {'' @ nl @ ''    GRAPH <''"
  define L5 where "L5 = nl @ ''    }'' @ nl @ ''  }'' @ nl"
  have sep: "set L1 \<inter> set ?p = {}" "set L2 \<inter> set ?p = {}" "set L3 \<inter> set ?p = {}"
    "set L4 \<inter> set ?p = {}" "set L5 \<inter> set ?p = {}"
    "L1 \<noteq> []" "L2 \<noteq> []" "L3 \<noteq> []" "L4 \<noteq> []" "L5 \<noteq> []"
    by (simp_all add: L1_def L2_def L3_def L4_def L5_def nl_def)
  have pn: "?p \<noteq> []" by simp
  have z: "count_sub ?p g1 = 0" "count_sub ?p g2 = 0" "count_sub ?p c = 0"
    using assms by (simp_all add: count_sub_zero)
  have e: "nl @ (''  {'' @ nl @ ''    GRAPH <'' @ g1 @ ''> {'' @ nl @ ''      '' @ c @ nl @ ''    }'' @ nl @ ''  }'')
               @ nl @ ''  UNION'' @ nl
               @ (''  {'' @ nl @ ''    GRAPH <'' @ g2 @ ''> {'' @ nl @ ''      '' @ c @ nl @ ''    }'' @ nl @ ''  }'')
               @ nl
        = [] @ L1 @ (g1 @ L2 @ (c @ L3 @ (''UNION'' @ L4 @ (g2 @ L2 @ (c @ L5 @ [])))))"
    by (simp add: L1_def L2_def L3_def L4_def L5_def)
  have "count_sub ?p ([] @ L1 @ (g1 @ L2 @ (c @ L3 @ (''UNION'' @ L4 @ (g2 @ L2 @ (c @ L5 @ []))))))
      = count_sub ?p [] + (count_sub ?p g1 + (count_sub ?p c + (count_sub ?p ''UNION''
          + (count_sub ?p g2 + (count_sub ?p c + count_sub ?p [])))))"
    by (simp only: count_sub_seps [OF sep(1) pn sep(6)] count_sub_seps [OF sep(2) pn sep(7)]
          count_sub_seps [OF sep(3) pn sep(8)] count_sub_seps [OF sep(4) pn sep(9)]
          count_sub_seps [OF sep(5) pn sep(10)])
  also have "\<dots> = 1" using z by simp
  finally show ?thesis unfolding e .
qed

lemma generated_text_no_graph:
  "generated_text nss mr None None
     = add_namespaces nss (substitute_entities (entities mr) (sparql_template (pattern mr)))"
  by (simp add: generated_text_def truthy_list_def)

lemma graphs_nonempty_truthy:
  "graphs_to_query ng dg \<noteq> [] \<Longrightarrow> truthy_list ng \<or> truthy_list dg"
  by (auto simp: graphs_to_query_def truthy_list_def split: option.splits if_splits)

text \<open>
  Claim C8, amended. Let the text built from the template (values substituted, prefixes
  added) have a \<^verbatim>\<open>WHERE { ... }\<close> clause, found as the leftmost \<^verbatim>\<open>WHERE\<close> followed by an
  opening brace and running to the last closing brace of the text. With exactly one graph
  URI (default or named) the clause becomes \<^verbatim>\<open>WHERE {\<close>, one \<^verbatim>\<open>GRAPH <uri> { ... }\<close> block
  holding the stripped body, and the closing brace. With two graph URIs the new WHERE body is
  two braced \<^verbatim>\<open>GRAPH <uri> { ... }\<close> blocks joined by one \<^verbatim>\<open>UNION\<close> line, each holding the
  stripped body with four spaces inserted after each of its newlines; when neither the URIs
  nor that re-indented body contain \<^verbatim>\<open>UNION\<close>, the word occurs exactly once in the new body.
  A query that \<^verbatim>\<open>build_query\<close> returns has this text.
\<close>

theorem graph_clauses_wrap_where_body:
  assumes "where_search [] (generated_text nss mr None None) = Some (pre, body, post)"
  shows "(\<exists>w ws. generated_text nss mr None None = pre @ w @ ws @ ''{'' @ body @ ''}'' @ post
            \<and> lower w = ''where'' \<and> (\<forall>c \<in> set ws. is_space c) \<and> CHR ''}'' \<notin> set post)
    \<and> (graphs_to_query ng dg = [g] \<longrightarrow>
          generated_text nss mr ng dg
            = pre @ ''WHERE {'' @ nl @ ''  GRAPH <'' @ g @ ''> {'' @ nl @ ''    '' @ strip body @ nl
                @ ''  }'' @ nl @ ''}'' @ post)
    \<and> (graphs_to_query ng dg = [g1, g2] \<longrightarrow>
          generated_text nss mr ng dg
            = pre @ ''WHERE {''
                @ (nl @ (''  {'' @ nl @ ''    GRAPH <'' @ g1 @ ''> {'' @ nl @ ''      ''
                           @ indent_content (strip body) @ nl @ ''    }'' @ nl @ ''  }'')
                      @ nl @ ''  UNION'' @ nl
                      @ (''  {'' @ nl @ ''    GRAPH <'' @ g2 @ ''> {'' @ nl @ ''      ''
                           @ indent_content (strip body) @ nl @ ''    }'' @ nl @ ''  }'')
                      @ nl)
                @ ''}'' @ post
          \<and> (\<not> contains ''UNION'' g1 \<and> \<not> contains ''UNION'' g2
               \<and> \<not> contains ''UNION'' (indent_content (strip body)) \<longrightarrow>
              count_sub ''UNION''
                (nl @ (''  {'' @ nl @ ''    GRAPH <'' @ g1 @ ''> {'' @ nl @ ''      ''
                           @ indent_content (strip body) @ nl @ ''    }'' @ nl @ ''  }'')
                      @ nl @ ''  UNION'' @ nl
                      @ (''  {'' @ nl @ ''    GRAPH <'' @ g2 @ ''> {'' @ nl @ ''      ''
                           @ indent_content (strip body) @ nl @ ''    }'' @ nl @ ''  }'')
                      @ nl) = 1))
    \<and> (\<forall>q. build_query nss mr ng dg = Inr q \<longrightarrow> query_text q = generated_text nss mr ng dg)"
proof -
  define t2 where "t2 = add_namespaces nss (substitute_entities (entities mr) (sparql_template (pattern mr)))"
  have t2: "generated_text nss mr None None = t2"
    by (simp add: generated_text_no_graph t2_def)
  have ws: "where_search [] t2 = Some (pre, body, post)" using assms t2 by simp
  have A: "\<exists>w ws. generated_text nss mr None None = pre @ w @ ws @ ''{'' @ body @ ''}'' @ post
            \<and> lower w = ''where'' \<and> (\<forall>c \<in> set ws. is_space c) \<and> CHR ''}'' \<notin> set post"
    using where_search_split [OF ws] t2 by simp
  have gen: "graphs_to_query ng dg \<noteq> [] \<Longrightarrow> generated_text nss mr ng dg = add_graph_clauses t2 ng dg"
    using graphs_nonempty_truthy [of ng dg] by (auto simp: generated_text_def t2_def Let_def)
  have B: "graphs_to_query ng dg = [g] \<longrightarrow>
          generated_text nss mr ng dg
            = pre @ ''WHERE {'' @ nl @ ''  GRAPH <'' @ g @ ''> {'' @ nl @ ''    '' @ strip body @ nl
                @ ''  }'' @ nl @ ''}'' @ post"
  proof
    assume g: "graphs_to_query ng dg = [g]"
    then have tr: "truthy_list ng \<or> truthy_list dg" using graphs_nonempty_truthy [of ng dg] by simp
    have "add_graph_clauses t2 ng dg
            = pre @ ''WHERE {'' @ nl @ ''  GRAPH <'' @ g @ ''> {'' @ nl @ ''    '' @ strip body @ nl
                @ ''  }'' @ nl @ ''}'' @ post"
      using tr ws g by (auto simp: add_graph_clauses_def Let_def)
    with gen g show "generated_text nss mr ng dg
            = pre @ ''WHERE {'' @ nl @ ''  GRAPH <'' @ g @ ''> {'' @ nl @ ''    '' @ strip body @ nl
                @ ''  }'' @ nl @ ''}'' @ post" by simp
  qed
  have C1: "graphs_to_query ng dg = [g1, g2] \<Longrightarrow>
          generated_text nss mr ng dg
            = pre @ ''WHERE {''
                @ (nl @ (''  {'' @ nl @ ''    GRAPH <'' @ g1 @ ''> {'' @ nl @ ''      ''
                           @ indent_content (strip body) @ nl @ ''    }'' @ nl @ ''  }'')
                      @ nl @ ''  UNION'' @ nl
                      @ (''  {'' @ nl @ ''    GRAPH <'' @ g2 @ ''> {'' @ nl @ ''      ''
                           @ indent_content (strip body) @ nl @ ''    }'' @ nl @ ''  }'')
                      @ nl)
                @ ''}'' @ post"
  proof -
    assume g: "graphs_to_query ng dg = [g1, g2]"
    then have tr: "truthy_list ng \<or> truthy_list dg" using graphs_nonempty_truthy [of ng dg] by simp
    have "add_graph_clauses t2 ng dg
            = pre @ ''WHERE {'' @ nl
                @ join_with (nl @ ''  UNION'' @ nl) (map (graph_block (strip body)) [g1, g2])
                @ nl @ ''}'' @ post"
      using tr ws g by (auto simp: add_graph_clauses_def Let_def)
    with gen g show ?thesis by (simp add: graph_block_def)
  qed
  have C2: "\<not> contains ''UNION'' g1 \<and> \<not> contains ''UNION'' g2
               \<and> \<not> contains ''UNION'' (indent_content (strip body)) \<longrightarrow>
              count_sub ''UNION''
                (nl @ (''  {'' @ nl @ ''    GRAPH <'' @ g1 @ ''> {'' @ nl @ ''      ''
                           @ indent_content (strip body) @ nl @ ''    }'' @ nl @ ''  }'')
                      @ nl @ ''  UNION'' @ nl
                      @ (''  {'' @ nl @ ''    GRAPH <'' @ g2 @ ''> {'' @ nl @ ''      ''
                           @ indent_content (strip body) @ nl @ ''    }'' @ nl @ ''  }'')
                      @ nl) = 1"
    using union_block_count [of g1 g2 "indent_content (strip body)"] by blast
  have D: "\<forall>q. build_query nss mr ng dg = Inr q \<longrightarrow> query_text q = generated_text nss mr ng dg"
  proof (cases "validate_sparql (generated_text nss mr ng dg)")
    case True
    from build_query_valid [OF True] show ?thesis by auto
  next
    case False
    from build_query_invalid [OF False] show ?thesis by simp
  qed
  from A B C1 C2 D show ?thesis by blast
qed

text \<open>
  Claim C8 as stated fails for a body of more than one line, which is what the generated
  templates have: with two graphs, neither the body of the WHERE clause nor its stripped
  form occurs in the result, because every line after the first is indented further.
\<close>

theorem graph_clauses_reindent_counterexample:
  "where_search [] (generated_text [] datatype_match_result None None)
     = Some (''SELECT ?todo'' @ nl,
             nl @ ''  ?todo <http://e/tag> ?tag .'' @ nl
               @ ''  FILTER (lcase(str(?tag)) = lcase(\"x\"))'' @ nl,
             [])
   \<and> strip (nl @ ''  ?todo <http://e/tag> ?tag .'' @ nl
               @ ''  FILTER (lcase(str(?tag)) = lcase(\"x\"))'' @ nl)
       = ''?todo <http://e/tag> ?tag .'' @ nl @ ''  FILTER (lcase(str(?tag)) = lcase(\"x\"))''
   \<and> graphs_to_query (Some [''http://g1'', ''http://g2'']) None = [''http://g1'', ''http://g2'']
   \<and> \<not> contains (''?todo <http://e/tag> ?tag .'' @ nl @ ''  FILTER (lcase(str(?tag)) = lcase(\"x\"))'')
         (generated_text [] datatype_match_result (Some [''http://g1'', ''http://g2'']) None)
   \<and> \<not> contains (nl @ ''  ?todo <http://e/tag> ?tag .'' @ nl
               @ ''  FILTER (lcase(str(?tag)) = lcase(\"x\"))'' @ nl)
         (generated_text [] datatype_match_result (Some [''http://g1'', ''http://g2'']) None)"
  by (simp add: builder_text_defs datatype_match_result_def datatype_query_def sample_pattern_def
        char_defs)

theorem graph_clauses_wrap_where_body_witness:
  "where_search [] (generated_text [] exact_match_result None None)
     = Some (''SELECT ?meeting '', '' ?meeting kb:hasAttendee ?person '', [])
   \<and> graphs_to_query (Some [''http://g1'']) None = [''http://g1'']
   \<and> generated_text [] exact_match_result (Some [''http://g1'']) None
       = ''SELECT ?meeting WHERE {'' @ nl @ ''  GRAPH <http://g1> {'' @ nl
         @ ''    ?meeting kb:hasAttendee ?person'' @ nl @ ''  }'' @ nl @ ''}''
   \<and> graphs_to_query (Some [''http://g1'']) (Some ''http://g0'') = [''http://g0'', ''http://g1'']
   \<and> generated_text [] exact_match_result (Some [''http://g1'']) (Some ''http://g0'')
       = ''SELECT ?meeting WHERE {'' @ nl
         @ ''  {'' @ nl @ ''    GRAPH <http://g0> {'' @ nl @ ''      ?meeting kb:hasAttendee ?person'' @ nl
         @ ''    }'' @ nl @ ''  }'' @ nl
         @ ''  UNION'' @ nl
         @ ''  {'' @ nl @ ''    GRAPH <http://g1> {'' @ nl @ ''      ?meeting kb:hasAttendee ?person'' @ nl
         @ ''    }'' @ nl @ ''  }'' @ nl @ ''}''"
proof -
  have h: "where_search [] (generated_text [] exact_match_result None None)
     = Some (''SELECT ?meeting '', '' ?meeting kb:hasAttendee ?person '', [])"
    by (simp add: builder_text_defs exact_match_result_def sample_pattern_def char_defs)
  have s: "strip '' ?meeting kb:hasAttendee ?person '' = ''?meeting kb:hasAttendee ?person''"
    by (simp add: char_defs)
  have i: "indent_content ''?meeting kb:hasAttendee ?person'' = ''?meeting kb:hasAttendee ?person''"
    by (simp add: indent_content_def split_nl_def)
  have q1: "graphs_to_query (Some [''http://g1'']) None = [''http://g1'']"
    by (simp add: graphs_to_query_def)
  have q2: "graphs_to_query (Some [''http://g1'']) (Some ''http://g0'') = [''http://g0'', ''http://g1'']"
    by (simp add: graphs_to_query_def)
  have a: "generated_text [] exact_match_result (Some [''http://g1'']) None
       = ''SELECT ?meeting WHERE {'' @ nl @ ''  GRAPH <http://g1> {'' @ nl
         @ ''    ?meeting kb:hasAttendee ?person'' @ nl @ ''  }'' @ nl @ ''}''"
    using graph_clauses_wrap_where_body [OF h, of "Some [''http://g1'']" None "''http://g1''"] q1 s
    by simp
  have b: "generated_text [] exact_match_result (Some [''http://g1'']) (Some ''http://g0'')
       = ''SELECT ?meeting WHERE {'' @ nl
         @ ''  {'' @ nl @ ''    GRAPH <http://g0> {'' @ nl @ ''      ?meeting kb:hasAttendee ?person'' @ nl
         @ ''    }'' @ nl @ ''  }'' @ nl
         @ ''  UNION'' @ nl
         @ ''  {'' @ nl @ ''    GRAPH <http://g1> {'' @ nl @ ''      ?meeting kb:hasAttendee ?person'' @ nl
         @ ''    }'' @ nl @ ''  }'' @ nl @ ''}''"
    using graph_clauses_wrap_where_body [OF h, of "Some [''http://g1'']" "Some ''http://g0''" _
            "''http://g0''" "''http://g1''"] q2 s i
    by simp
  from h q1 a q2 b show ?thesis by blast
qed

subsection \<open>The possessive form of a template\<close>

text \<open>
  Claim C7 says that a literal apostrophe-s of a template is optional in the input: both
  \<^verbatim>\<open>Sarah's meetings\<close> and \<^verbatim>\<open>Sarahs meetings\<close> match the template \<^verbatim>\<open>{person}'s meetings\<close> with
  the entity \<^verbatim>\<open>person = Sarah\<close>. The code means this (\<^verbatim>\<open>_template_to_regex\<close> says
  \<^verbatim>\<open># Allow optional 's for possessives\<close>) and replaces the text backslash, apostrophe, s of
  the escaped template; but \<^verbatim>\<open>re.escape\<close> does not escape an apostrophe, so that text never
  occurs and the regular expression keeps the apostrophe. The input with the apostrophe
  matches exactly; the input without it matches neither exactly nor, with a blended
  similarity of 41/70 under the threshold 0.7, fuzzily, and \<^verbatim>\<open>find_matches\<close> returns no
  result for it.
\<close>

theorem possessive_apostrophe_not_optional:
  "template_to_regex (template possessive_pattern)
     = ''^(.+?)'' @ [CHR 0x27] @ ''s'' @ [CHR 0x5C] @ '' meetings$''
   \<and> find_matches difflib (7 / 10) (''Sarah'' @ [CHR 0x27] @ ''s meetings'') test_grammar
       = Inr [\<lparr> pattern = possessive_pattern, match_confidence = 1,
                 entities = [(''person'', ''Sarah'')], match_type = ''exact'' \<rparr>]
   \<and> try_exact_match ''Sarahs meetings'' possessive_pattern = Inr None
   \<and> calculate_token_similarity difflib (tokenize ''Sarahs meetings'')
         (tokenize_template (template possessive_pattern)) = 41 / 70
   \<and> find_matches difflib (7 / 10) ''Sarahs meetings'' test_grammar = Inr []"
proof -
  have a: "template_to_regex (template possessive_pattern)
     = ''^(.+?)'' @ [CHR 0x27] @ ''s'' @ [CHR 0x5C] @ '' meetings$''"
    by code_simp
  have b: "find_matches difflib (7 / 10) (''Sarah'' @ [CHR 0x27] @ ''s meetings'') test_grammar
       = Inr [\<lparr> pattern = possessive_pattern, match_confidence = 1,
                 entities = [(''person'', ''Sarah'')], match_type = ''exact'' \<rparr>]"
    by code_simp
  have c: "try_exact_match ''Sarahs meetings'' possessive_pattern = Inr None"
    by code_simp
  have d: "calculate_token_similarity difflib (tokenize ''Sarahs meetings'')
         (tokenize_template (template possessive_pattern)) = 41 / 70"
    by code_simp
  have e: "find_matches difflib (7 / 10) ''Sarahs meetings'' test_grammar = Inr []"
    by code_simp
  from a b c d e show ?thesis by blast
qed


subsection \<open>suggest\_corrections and the no-match response of process\_query\<close>

lemma remdups_snoc: "remdups (ys @ [x]) = filter (\<lambda>y. y \<noteq> x) (remdups ys) @ [x]"
  by (induction ys) auto

lemma filter_seen_absorb:
  "x \<in> set seen \<Longrightarrow>
     filter (\<lambda>y. y \<notin> set seen) (filter (\<lambda>y. y \<noteq> x) zs) = filter (\<lambda>y. y \<notin> set seen) zs"
  by (induction zs) auto

lemma filter_seen_snoc:
  "filter (\<lambda>y. y \<notin> set (seen @ [x])) zs
     = filter (\<lambda>y. y \<notin> set seen) (filter (\<lambda>y. y \<noteq> x) zs)"
  by (induction zs) auto

lemma dedup_seen_filter:
  "dedup_seen seen xs = filter (\<lambda>x. x \<notin> set seen) (rev (remdups (rev xs)))"
proof (induction xs arbitrary: seen)
  case Nil
  show ?case by simp
next
  case (Cons x xs)
  define zs where "zs = rev (remdups (rev xs))"
  have r: "rev (remdups (rev (x # xs))) = x # filter (\<lambda>y. y \<noteq> x) zs"
    unfolding zs_def by (simp add: remdups_snoc rev_filter)
  show ?case
  proof (cases "x \<in> set seen")
    case True
    have "dedup_seen seen (x # xs) = dedup_seen seen xs" using True by simp
    also have "\<dots> = filter (\<lambda>y. y \<notin> set seen) zs" unfolding zs_def by (rule Cons.IH)
    also have "\<dots> = filter (\<lambda>y. y \<notin> set seen) (filter (\<lambda>y. y \<noteq> x) zs)"
      by (rule filter_seen_absorb [OF True, symmetric])
    also have "\<dots> = filter (\<lambda>y. y \<notin> set seen) (x # filter (\<lambda>y. y \<noteq> x) zs)"
      using True by (simp only: filter.simps not_True_eq_False if_False simp_thms)
    finally show ?thesis unfolding r .
  next
    case False
    have "dedup_seen seen (x # xs) = x # dedup_seen (seen @ [x]) xs" using False by simp
    also have "dedup_seen (seen @ [x]) xs = filter (\<lambda>y. y \<notin> set (seen @ [x])) zs"
      unfolding zs_def by (rule Cons.IH)
    also have "\<dots> = filter (\<lambda>y. y \<notin> set seen) (filter (\<lambda>y. y \<noteq> x) zs)"
      by (rule filter_seen_snoc)
    also have "x # \<dots> = filter (\<lambda>y. y \<notin> set seen) (x # filter (\<lambda>y. y \<noteq> x) zs)"
      using False by (simp only: filter.simps if_True simp_thms)
    finally show ?thesis unfolding r .
  qed
qed

lemma dedup_seen_first_seen: "dedup_seen [] xs = rev (remdups (rev xs))"
  by (simp add: dedup_seen_filter)


text \<open>
  Claim C3: when the matcher finds no pattern at or above the threshold, that is when
  \<^verbatim>\<open>find_matches\<close> returns the empty list, \<^verbatim>\<open>process_query\<close> returns a response with
  \<^verbatim>\<open>success = False\<close>, the error message \<^verbatim>\<open>Could not understand query: \<close> followed by the input,
  and the list of \<^verbatim>\<open>suggest_corrections\<close>: the first five of the suggestions collected over
  the patterns, each kept at its first occurrence only. The list has no duplicates and
  at most five entries. \<^const>\<open>process_query\<close> is a total function into the responses: no
  error is a result of it.
\<close>

theorem process_query_no_match:
  assumes "find_matches D (round_float D (7 / 10)) (input_text request) g = Inr []"
  shows "process_query D g nss elapsed request
           = \<lparr> success = False, sparql_query = None, results = None, execution_time = elapsed,
               error_message = Some (''Could not understand query: '' @ input_text request),
               suggestions = Some (suggest_corrections D (input_text request) g),
               debug_info = None \<rparr>
         \<and> suggest_corrections D (input_text request) g
             = take 5 (rev (remdups (rev (concat (map
                 (pattern_suggestions D (tokenize (lower (input_text request)))) (patterns g))))))
         \<and> distinct (suggest_corrections D (input_text request) g)
         \<and> length (suggest_corrections D (input_text request) g) \<le> 5"
proof -
  have s: "suggest_corrections D (input_text request) g
             = take 5 (rev (remdups (rev (concat (map
                 (pattern_suggestions D (tokenize (lower (input_text request)))) (patterns g))))))"
    by (simp add: suggest_corrections_def Let_def dedup_seen_first_seen)
  have d: "distinct (suggest_corrections D (input_text request) g)"
    unfolding s by (rule distinct_take) simp
  have l: "length (suggest_corrections D (input_text request) g) \<le> 5"
    unfolding s by simp
  have p: "process_query D g nss elapsed request
           = \<lparr> success = False, sparql_query = None, results = None, execution_time = elapsed,
               error_message = Some (''Could not understand query: '' @ input_text request),
               suggestions = Some (suggest_corrections D (input_text request) g),
               debug_info = None \<rparr>"
    using assms by (simp add: process_query_def)
  from p s d l show ?thesis by blast
qed


theorem process_query_no_match_witness:
  "find_matches difflib (round_float difflib (7 / 10)) (input_text unrelated_request)
       test_grammar = Inr []
   \<and> process_query difflib test_grammar [] 0 unrelated_request
       = \<lparr> success = False, sparql_query = None, results = None, execution_time = 0,
           error_message = Some ''Could not understand query: weather forecast with John'',
           suggestions = Some [''meetings with John Smith''], debug_info = None \<rparr>"
proof -
  have h: "find_matches difflib (round_float difflib (7 / 10)) (input_text unrelated_request)
       test_grammar = Inr []"
    by code_simp
  have s: "suggest_corrections difflib (input_text unrelated_request) test_grammar
             = [''meetings with John Smith'']"
    by code_simp
  have t: "input_text unrelated_request = ''weather forecast with John''"
    by (simp add: unrelated_request_def)
  from process_query_no_match [OF h, of "[]" 0] s t h show ?thesis by simp
qed

subsection \<open>The blended similarity of a fuzzy match\<close>

lemma matching_total_le: "matching_total a b \<le> length a \<and> matching_total a b \<le> length b"
proof (induction a b rule: matching_total.induct)
  case (1 a b)
  obtain i j k where f: "find_longest_match a b = (i, j, k)" by (cases "find_longest_match a b")
  show ?case
  proof (cases "k = 0 \<or> i + k > length a \<or> j + k > length b")
    case True
    then show ?thesis using f by (subst matching_total.simps, simp)+
  next
    case False
    have g: "\<not> (k = 0 \<or> length a < i + k \<or> length b < j + k)" using False by simp
    have e: "matching_total a b = matching_total (take i a) (take j b) + k
               + matching_total (drop (i + k) a) (drop (j + k) b)"
      using f False by (subst matching_total.simps) simp
    have ih1: "matching_total (take i a) (take j b) \<le> length (take i a)
               \<and> matching_total (take i a) (take j b) \<le> length (take j b)"
      using "1.IH"(1) [OF f [symmetric] refl g] .
    have ih2: "matching_total (drop (i + k) a) (drop (j + k) b) \<le> length (drop (i + k) a)
               \<and> matching_total (drop (i + k) a) (drop (j + k) b) \<le> length (drop (j + k) b)"
      using "1.IH"(2) [OF f [symmetric] refl g] .
    from ih1 ih2 False show ?thesis unfolding e by auto
  qed
qed

lemma sm_ratio_range: "0 \<le> sm_ratio a b \<and> sm_ratio a b \<le> 1"
proof (cases "length a + length b = 0")
  case True
  then show ?thesis by (simp add: sm_ratio_def)
next
  case False
  have "2 * matching_total a b \<le> length a + length b"
    using matching_total_le [of a b] by linarith
  then have "(2 * of_nat (matching_total a b) :: rat) \<le> of_nat (length a + length b)"
    by (metis of_nat_le_iff of_nat_mult of_nat_numeral)
  moreover have "0 < length a + length b" using False by simp
  then have "(0 :: rat) < of_nat (length a + length b)" by (simp only: of_nat_0_less_iff)
  ultimately show ?thesis using False unfolding sm_ratio_def by (simp del: of_nat_add)
qed

lemma sum_list_unit_range:
  "\<forall>x \<in> set xs. (0 :: rat) \<le> x \<and> x \<le> 1 \<Longrightarrow> 0 \<le> sum_list xs \<and> sum_list xs \<le> of_nat (length xs)"
  by (induction xs) auto

lemma word_similarities_nth:
  "word_similarities D toks i ws
     = map (\<lambda>k. if i + k < length toks then ratio_str D (toks ! (i + k)) (ws ! k) else 0)
           [0 ..< length ws]"
proof (induction ws arbitrary: i)
  case Nil
  show ?case by simp
next
  case (Cons w ws)
  show ?case
    by (simp only: word_similarities.simps Cons.IH [of "i + 1"] length_Cons map_upt_Suc)
       simp
qed

lemma word_similarities_positions:
  "word_similarities D toks 0 ws
     = map (\<lambda>i. if i < length toks then ratio_str D (toks ! i) (ws ! i) else 0) [0 ..< length ws]"
  by (simp add: word_similarities_nth cong: if_cong)

lemma word_similarities_range:
  assumes "\<forall>a b. 0 \<le> ratio_str D a b \<and> ratio_str D a b \<le> 1"
  shows "\<forall>x \<in> set (word_similarities D toks i ws). 0 \<le> x \<and> x \<le> 1"
  using assms by (induction ws arbitrary: i) auto

lemma length_word_similarities: "length (word_similarities D toks i ws) = length ws"
  by (induction ws arbitrary: i) auto

lemma calculate_token_similarity_blend:
  assumes "word_texts pattern_tokens \<noteq> []"
  shows "calculate_token_similarity D toks pattern_tokens
           = blended_score D toks (word_texts pattern_tokens)"
proof -
  have ne: "word_similarities D toks 0 (word_texts pattern_tokens) \<noteq> []"
    using assms length_word_similarities [of D toks 0 "word_texts pattern_tokens"]
    by (metis length_0_conv)
  have l: "length (word_similarities D toks 0 (word_texts pattern_tokens))
             = length (word_texts pattern_tokens)"
    by (rule length_word_similarities)
  show ?thesis
    unfolding calculate_token_similarity_def blended_score_def Let_def
      word_similarities_positions [symmetric] l
    using assms ne by simp
qed

lemma calculate_token_similarity_range:
  assumes r1: "\<forall>a b. 0 \<le> ratio_str D a b \<and> ratio_str D a b \<le> 1"
      and r2: "\<forall>a b. 0 \<le> ratio_seq D a b \<and> ratio_seq D a b \<le> 1"
      and mono: "\<forall>x y. x \<le> y \<longrightarrow> round_float D x \<le> round_float D y"
      and fx: "round_float D 0 = 0 \<and> round_float D 1 = 1"
      and lit: "round_float D (round_float D (4 / 10)) + round_float D (round_float D (6 / 10)) \<le> 1"
      and sm: "\<forall>xs. (\<forall>x \<in> set xs. 0 \<le> x \<and> x \<le> 1)
                    \<longrightarrow> 0 \<le> sum_floats D xs \<and> sum_floats D xs \<le> of_nat (length xs)"
  shows "0 \<le> calculate_token_similarity D toks pattern_tokens
         \<and> calculate_token_similarity D toks pattern_tokens \<le> 1"
proof (cases "word_texts pattern_tokens = []")
  case True
  then show ?thesis by (simp add: calculate_token_similarity_def)
next
  case False
  define ws where "ws = word_texts pattern_tokens"
  define sims where "sims = word_similarities D toks 0 ws"
  define n where "n = length ws"
  define s where "s = ratio_seq D (take n toks) ws"
  define avg where "avg = round_float D (sum_floats D sims / of_nat n)"
  define c4 where "c4 = round_float D (4 / 10)"
  define c6 where "c6 = round_float D (6 / 10)"
  have rnd0: "0 \<le> round_float D x" if "0 \<le> x" for x
    using mono fx that by metis
  have rnd1: "round_float D x \<le> 1" if "x \<le> 1" for x
    using mono fx that by metis
  have n: "0 < n" using False by (simp add: n_def ws_def)
  have ln: "length sims = n" by (simp add: sims_def n_def length_word_similarities)
  have ne: "sims \<noteq> []" using n ln by auto
  have "\<forall>x \<in> set sims. 0 \<le> x \<and> x \<le> 1"
    unfolding sims_def by (rule word_similarities_range [OF r1])
  with sm have sb: "0 \<le> sum_floats D sims \<and> sum_floats D sims \<le> of_nat n"
    unfolding ln [symmetric] by blast
  have q0: "0 \<le> sum_floats D sims / of_nat n" using sb n by simp
  have q1: "sum_floats D sims / of_nat n \<le> 1" using sb n by simp
  have a: "0 \<le> avg \<and> avg \<le> 1" unfolding avg_def using rnd0 [OF q0] rnd1 [OF q1] by simp
  have sr: "0 \<le> s \<and> s \<le> 1" using r2 by (simp add: s_def)
  have c40: "0 \<le> c4" unfolding c4_def by (rule rnd0) simp
  have c60: "0 \<le> c6" unfolding c6_def by (rule rnd0) simp
  have p4: "0 \<le> c4 * s \<and> c4 * s \<le> c4" using c40 sr by (simp add: mult_left_le)
  have p6: "0 \<le> c6 * avg \<and> c6 * avg \<le> c6" using c60 a by (simp add: mult_left_le)
  have t4: "0 \<le> round_float D (c4 * s) \<and> round_float D (c4 * s) \<le> round_float D c4"
    using rnd0 p4 mono by blast
  have t6: "0 \<le> round_float D (c6 * avg) \<and> round_float D (c6 * avg) \<le> round_float D c6"
    using rnd0 p6 mono by blast
  have u0: "0 \<le> round_float D (c4 * s) + round_float D (c6 * avg)" using t4 t6 by simp
  have u1: "round_float D (c4 * s) + round_float D (c6 * avg) \<le> 1"
    using t4 t6 lit unfolding c4_def c6_def by linarith
  have e: "calculate_token_similarity D toks pattern_tokens
             = round_float D (round_float D (c4 * s) + round_float D (c6 * avg))"
    unfolding calculate_token_similarity_def Let_def c4_def c6_def s_def avg_def sims_def
      n_def ws_def
    using False ne [unfolded sims_def ws_def]
    by (simp add: length_word_similarities)
  show ?thesis unfolding e using rnd0 [OF u0] rnd1 [OF u1] by simp
qed

lemma try_fuzzy_match_result:
  assumes "0 \<le> calculate_token_similarity D (tokenize txt) (tokenize_template (template p))
           \<and> calculate_token_similarity D (tokenize txt) (tokenize_template (template p)) \<le> 1"
  shows "try_fuzzy_match D threshold txt p
           = (if threshold \<le> calculate_token_similarity D (tokenize txt)
                                 (tokenize_template (template p))
              then Inr (Some \<lparr> pattern = p,
                     match_confidence = calculate_token_similarity D (tokenize txt)
                                          (tokenize_template (template p)),
                     entities = extract_entities_fuzzy D txt p, match_type = ''fuzzy'' \<rparr>)
              else Inr None)"
  using assms by (simp add: try_fuzzy_match_def MatchResult_new_def Let_def)

lemma fuzzy_result_at:
  assumes "c = E \<and> t = (if thr \<le> E
                          then Inr (Some \<lparr> pattern = p, match_confidence = E, entities = en,
                                           match_type = mt \<rparr>)
                          else Inr None)"
      and "c = v" and "thr \<le> v"
  shows "t = Inr (Some \<lparr> pattern = p, match_confidence = v, entities = en, match_type = mt \<rparr>)"
  using assms by simp

text \<open>
  Claim C6: for a pattern whose template has at least one literal word, the similarity of
  \<^verbatim>\<open>_calculate_token_similarity\<close> is 0.4 times the sequence ratio of the input tokens, cut
  to the number of literal words, against the literal words, plus 0.6 times the mean over
  the literal words of the ratio of the input token and the literal word at the same
  position, a position beyond the input tokens counting 0; and \<^verbatim>\<open>_try_fuzzy_match\<close> returns
  a result exactly when this score is at least the threshold, with the score as its
  confidence and the match type \<^verbatim>\<open>fuzzy\<close>. The products, the sum and the mean are those of
  the float arithmetic, each rounded. The theorem holds for every ratio with values
  between 0 and 1 and every rounding that is monotone, keeps 0 and 1, rounds \<^verbatim>\<open>0.4\<close> and
  \<^verbatim>\<open>0.6\<close> to floats whose sum is at most 1 and sums \<open>n\<close> floats between 0 and 1 to a float
  between 0 and \<open>n\<close>, as the arithmetic of Python does.
\<close>

theorem fuzzy_score_blend:
  assumes "\<forall>a b. 0 \<le> ratio_str D a b \<and> ratio_str D a b \<le> 1"
      and "\<forall>a b. 0 \<le> ratio_seq D a b \<and> ratio_seq D a b \<le> 1"
      and "\<forall>x y. x \<le> y \<longrightarrow> round_float D x \<le> round_float D y"
      and "round_float D 0 = 0 \<and> round_float D 1 = 1"
      and "round_float D (round_float D (4 / 10)) + round_float D (round_float D (6 / 10)) \<le> 1"
      and "\<forall>xs. (\<forall>x \<in> set xs. 0 \<le> x \<and> x \<le> 1)
                \<longrightarrow> 0 \<le> sum_floats D xs \<and> sum_floats D xs \<le> of_nat (length xs)"
      and "word_texts (tokenize_template (template p)) \<noteq> []"
  shows "let input_tokens = tokenize txt;
             pattern_words = word_texts (tokenize_template (template p));
             n = length pattern_words;
             seq_ratio = ratio_seq D (take n input_tokens) pattern_words;
             word_ratios = map (\<lambda>i. if i < length input_tokens
                                      then ratio_str D (input_tokens ! i) (pattern_words ! i)
                                      else 0) [0 ..< n];
             mean = round_float D (sum_floats D word_ratios / of_nat n);
             score = round_float D (round_float D (round_float D (4 / 10) * seq_ratio)
                                    + round_float D (round_float D (6 / 10) * mean))
         in calculate_token_similarity D input_tokens (tokenize_template (template p)) = score
            \<and> try_fuzzy_match D threshold txt p
                = (if threshold \<le> score
                   then Inr (Some \<lparr> pattern = p, match_confidence = score,
                                    entities = extract_entities_fuzzy D txt p,
                                    match_type = ''fuzzy'' \<rparr>)
                   else Inr None)"
proof -
  define score where
    "score = calculate_token_similarity D (tokenize txt) (tokenize_template (template p))"
  have b: "score = blended_score D (tokenize txt) (word_texts (tokenize_template (template p)))"
    unfolding score_def by (rule calculate_token_similarity_blend [OF assms(7)])
  have r: "0 \<le> score \<and> score \<le> 1"
    unfolding score_def
    by (rule calculate_token_similarity_range
          [OF assms(1) assms(2) assms(3) assms(4) assms(5) assms(6)])
  have t: "try_fuzzy_match D threshold txt p
             = (if threshold \<le> score
                then Inr (Some \<lparr> pattern = p, match_confidence = score,
                                 entities = extract_entities_fuzzy D txt p,
                                 match_type = ''fuzzy'' \<rparr>)
                else Inr None)"
    unfolding score_def by (rule try_fuzzy_match_result [OF r [unfolded score_def]])
  show ?thesis
    unfolding Let_def blended_score_def [symmetric] b [symmetric]
    using t by (simp add: score_def)
qed


theorem fuzzy_score_blend_witness:
  "word_texts (tokenize_template (template sample_pattern)) = [''meetings'', ''with'']
   \<and> tokenize ''meetigns with John Smith'' = [''meetigns'', ''with'', ''john'', ''smith'']
   \<and> ratio_seq difflib [''meetigns'', ''with''] [''meetings'', ''with''] = 1 / 2
   \<and> ratio_str difflib ''meetigns'' ''meetings'' = 7 / 8
   \<and> ratio_str difflib ''with'' ''with'' = 1
   \<and> calculate_token_similarity difflib (tokenize ''meetigns with John Smith'')
         (tokenize_template (template sample_pattern)) = 61 / 80
   \<and> try_fuzzy_match difflib (7 / 10) ''meetigns with John Smith'' sample_pattern
       = Inr (Some \<lparr> pattern = sample_pattern, match_confidence = 61 / 80,
                      entities = [(''person'', ''John Smith'')], match_type = ''fuzzy'' \<rparr>)"
proof -
  have h1: "\<forall>a b. 0 \<le> ratio_str difflib a b \<and> ratio_str difflib a b \<le> 1"
    by (simp add: difflib_def sm_ratio_range)
  have h2: "\<forall>a b. 0 \<le> ratio_seq difflib a b \<and> ratio_seq difflib a b \<le> 1"
    by (simp add: difflib_def sm_ratio_range)
  have h3: "\<forall>x y. x \<le> y \<longrightarrow> round_float difflib x \<le> round_float difflib y"
    by (simp add: difflib_def)
  have h4: "round_float difflib 0 = 0 \<and> round_float difflib 1 = 1"
    by (simp add: difflib_def)
  have h5: "round_float difflib (round_float difflib (4 / 10))
              + round_float difflib (round_float difflib (6 / 10)) \<le> 1"
    by (simp add: difflib_def)
  have h6: "\<forall>xs. (\<forall>x \<in> set xs. 0 \<le> x \<and> x \<le> 1)
                \<longrightarrow> 0 \<le> sum_floats difflib xs \<and> sum_floats difflib xs \<le> of_nat (length xs)"
    by (simp add: difflib_def sum_list_unit_range)
  have w: "word_texts (tokenize_template (template sample_pattern)) = [''meetings'', ''with'']"
    by code_simp
  have h7: "word_texts (tokenize_template (template sample_pattern)) \<noteq> []"
    unfolding w by simp
  have tk: "tokenize ''meetigns with John Smith'' = [''meetigns'', ''with'', ''john'', ''smith'']"
    by code_simp
  have r1: "ratio_seq difflib [''meetigns'', ''with''] [''meetings'', ''with''] = 1 / 2"
    by code_simp
  have r2: "ratio_str difflib ''meetigns'' ''meetings'' = 7 / 8"
    by code_simp
  have r3: "ratio_str difflib ''with'' ''with'' = 1"
    by code_simp
  have e: "extract_entities_fuzzy difflib ''meetigns with John Smith'' sample_pattern
             = [(''person'', ''John Smith'')]"
    by code_simp
  have c: "calculate_token_similarity difflib (tokenize ''meetigns with John Smith'')
             (tokenize_template (template sample_pattern)) = 61 / 80"
    by code_simp
  have le: "(7 / 10 :: rat) \<le> 61 / 80" by simp
  note f = fuzzy_score_blend [OF h1 h2 h3 h4 h5 h6 h7, of "''meetigns with John Smith''" "7 / 10",
             unfolded Let_def]
  have t: "try_fuzzy_match difflib (7 / 10) ''meetigns with John Smith'' sample_pattern
       = Inr (Some \<lparr> pattern = sample_pattern, match_confidence = 61 / 80,
                      entities = [(''person'', ''John Smith'')], match_type = ''fuzzy'' \<rparr>)"
    unfolding e [symmetric] by (rule fuzzy_result_at [OF f c le])
  from w tk r1 r2 r3 c t show ?thesis by blast
qed


subsection \<open>find\_matches\<close>

lemma alist_update_fresh: "k \<notin> fst ` set al \<Longrightarrow> AList.update k v al = al @ [(k, v)]"
  by (induction al) auto

lemma entities_from_groups_zip:
  "distinct ps \<Longrightarrow> set ps \<inter> fst ` set ents = {} \<Longrightarrow>
     entities_from_groups ents ps gs = ents @ zip ps (map strip gs)"
proof (induction ents ps gs rule: entities_from_groups.induct)
  case (1 ents groups)
  show ?case by simp
next
  case (2 ents placeholder ps)
  show ?case by simp
next
  case (3 ents placeholder ps g gs)
  have f: "placeholder \<notin> fst ` set ents" using 3(3) by auto
  have u: "AList.update placeholder (strip g) ents = ents @ [(placeholder, strip g)]"
    by (rule alist_update_fresh [OF f])
  have d: "distinct ps" using 3(2) by simp
  have i: "set ps \<inter> fst ` set (ents @ [(placeholder, strip g)]) = {}"
    using 3(2) 3(3) by auto
  show ?case
    using "3.IH" [OF d i [folded u]] u by simp
qed

lemma rx_all_slices:
  "(gs, u) \<in> set (rx_all rx s) \<Longrightarrow> \<forall>g \<in> set gs. \<exists>i k. g = take k (drop i s)"
proof (induction rx arbitrary: s gs u)
  case Nil
  then show ?case by simp
next
  case (Cons it r)
  obtain p lo many greedy cap where it: "it = Item p lo many greedy cap" by (cases it)
  from Cons.prems obtain k gs' where
    m: "(gs', u) \<in> set (rx_all r (drop k s))" and
    g: "gs = (if cap then take k s # gs' else gs')"
    unfolding it by (auto simp: Let_def split: if_splits)
  have ih: "\<forall>g \<in> set gs'. \<exists>i k'. g = take k' (drop i (drop k s))"
    by (rule Cons.IH [OF m])
  have sl: "\<forall>g \<in> set gs'. \<exists>i k'. g = take k' (drop i s)"
  proof
    fix x assume "x \<in> set gs'"
    with ih obtain i k' where "x = take k' (drop i (drop k s))" by blast
    then have "x = take k' (drop (i + k) s)" by simp
    then show "\<exists>i k'. x = take k' (drop i s)" by blast
  qed
  have hd: "\<exists>i k'. take k s = take k' (drop i s)"
    by (rule exI [of _ 0], rule exI [of _ k]) simp
  show ?case using g sl hd by (auto split: if_splits)
qed

lemma rx_match_anchored_slices:
  assumes "rx_match_anchored rx s = Some gs"
  shows "\<forall>g \<in> set gs. \<exists>i k. g = take k (drop i s)"
proof -
  from assms obtain rest ms where
    f: "filter (\<lambda>(gs, rest). at_end rest) (rx_all rx s) = (gs, rest) # ms"
    unfolding rx_match_anchored_def by (auto split: list.splits)
  have "(gs, rest) \<in> set (filter (\<lambda>(gs, rest). at_end rest) (rx_all rx s))"
    unfolding f by simp
  then have "(gs, rest) \<in> set (rx_all rx s)" by simp
  then show ?thesis by (rule rx_all_slices)
qed

lemma try_exact_match_result:
  "try_exact_match txt p
     = (case re_match_anchored (template_to_regex (template p)) txt of
          Some groups \<Rightarrow>
            Inr (Some \<lparr> pattern = p, match_confidence = 1,
                        entities = entities_from_groups [] (find_placeholders (template p)) groups,
                        match_type = ''exact'' \<rparr>)
        | None \<Rightarrow> Inr None)"
  by (simp add: try_exact_match_def MatchResult_new_def extract_entities_from_match_def
        split: option.splits)

lemma match_pattern_result:
  assumes "0 \<le> calculate_token_similarity D (tokenize txt) (tokenize_template (template p))
           \<and> calculate_token_similarity D (tokenize txt) (tokenize_template (template p)) \<le> 1"
  shows "match_pattern D threshold txt p
     = (case re_match_anchored (template_to_regex (template p)) txt of
          Some groups \<Rightarrow>
            Inr (Some \<lparr> pattern = p, match_confidence = 1,
                        entities = entities_from_groups [] (find_placeholders (template p)) groups,
                        match_type = ''exact'' \<rparr>)
        | None \<Rightarrow>
            if threshold \<le> calculate_token_similarity D (tokenize txt)
                               (tokenize_template (template p))
            then Inr (Some \<lparr> pattern = p,
                   match_confidence = calculate_token_similarity D (tokenize txt)
                                        (tokenize_template (template p)),
                   entities = extract_entities_fuzzy D txt p, match_type = ''fuzzy'' \<rparr>)
            else Inr None)"
  unfolding match_pattern_def try_exact_match_result try_fuzzy_match_result [OF assms]
  by (simp split: option.splits)

lemma collect_matches_all:
  assumes "\<forall>p \<in> set ps. \<exists>r. match_pattern D thr t p = Inr r"
  shows "collect_matches D thr t acc ps
           = Inr (acc @ concat (map (\<lambda>p. case match_pattern D thr t p of
                                            Inr (Some m) \<Rightarrow> if thr \<le> match_confidence m then [m] else []
                                          | _ \<Rightarrow> []) ps))"
  using assms
proof (induction ps arbitrary: acc)
  case Nil
  show ?case by simp
next
  case (Cons p ps)
  from Cons.prems obtain r where r: "match_pattern D thr t p = Inr r" by auto
  have rest: "\<forall>q \<in> set ps. \<exists>r. match_pattern D thr t q = Inr r" using Cons.prems by simp
  show ?case
  proof (cases r)
    case None
    then show ?thesis using r Cons.IH [OF rest, of acc] by simp
  next
    case (Some m)
    then show ?thesis
      using r Cons.IH [OF rest, of acc] Cons.IH [OF rest, of "acc @ [m]"] by simp
  qed
qed


text \<open>
  Claim C1: \<^verbatim>\<open>find_matches\<close> returns a list of results, sorted by descending confidence, each
  with a confidence of at least the threshold; the list holds the result of every pattern
  of the grammar whose result has such a confidence, so that every pattern is scored.
  Whenever the regular expression of a pattern's template matches the whole input (under
  \<^verbatim>\<open>re.IGNORECASE\<close>), the result for that pattern has the confidence 1, the match type
  \<^verbatim>\<open>exact\<close> and the entities filled from the captured groups in the order of the
  placeholders of the template: it is in the list when the threshold is at most 1, every
  group is a piece of the input as it was typed, and for a template with distinct
  placeholders the entities are the placeholders paired with the stripped groups. The
  theorem holds for every ratio and rounding as in the theorem of the blended similarity.
\<close>

theorem find_matches_sorted_filtered:
  assumes "\<forall>a b. 0 \<le> ratio_str D a b \<and> ratio_str D a b \<le> 1"
      and "\<forall>a b. 0 \<le> ratio_seq D a b \<and> ratio_seq D a b \<le> 1"
      and "\<forall>x y. x \<le> y \<longrightarrow> round_float D x \<le> round_float D y"
      and "round_float D 0 = 0 \<and> round_float D 1 = 1"
      and "round_float D (round_float D (4 / 10)) + round_float D (round_float D (6 / 10)) \<le> 1"
      and "\<forall>xs. (\<forall>x \<in> set xs. 0 \<le> x \<and> x \<le> 1)
                \<longrightarrow> 0 \<le> sum_floats D xs \<and> sum_floats D xs \<le> of_nat (length xs)"
  shows "\<exists>ms. find_matches D threshold txt g = Inr ms
           \<and> sorted (map (\<lambda>m. - match_confidence m) ms)
           \<and> (\<forall>m \<in> set ms. threshold \<le> match_confidence m)
           \<and> set ms = {m. \<exists>p \<in> set (patterns g).
                            match_pattern D threshold txt p = Inr (Some m)
                            \<and> threshold \<le> match_confidence m}
           \<and> (\<forall>p \<in> set (patterns g). \<forall>groups.
                 re_match_anchored (template_to_regex (template p)) txt = Some groups \<longrightarrow>
                   match_pattern D threshold txt p
                     = Inr (Some \<lparr> pattern = p, match_confidence = 1,
                              entities = entities_from_groups []
                                           (find_placeholders (template p)) groups,
                              match_type = ''exact'' \<rparr>)
                   \<and> (threshold \<le> 1 \<longrightarrow>
                        \<lparr> pattern = p, match_confidence = 1,
                          entities = entities_from_groups []
                                       (find_placeholders (template p)) groups,
                          match_type = ''exact'' \<rparr> \<in> set ms)
                   \<and> (\<forall>v \<in> set groups. \<exists>i k. v = take k (drop i txt))
                   \<and> (distinct (find_placeholders (template p)) \<longrightarrow>
                        entities_from_groups [] (find_placeholders (template p)) groups
                          = zip (find_placeholders (template p)) (map strip groups)))"
proof -
  have rng: "0 \<le> calculate_token_similarity D (tokenize txt) (tokenize_template (template p))
           \<and> calculate_token_similarity D (tokenize txt) (tokenize_template (template p)) \<le> 1"
    for p
    by (rule calculate_token_similarity_range
          [OF assms(1) assms(2) assms(3) assms(4) assms(5) assms(6)])
  note mp = match_pattern_result [OF rng]
  have tot: "\<forall>p \<in> set (patterns g). \<exists>r. match_pattern D threshold txt p = Inr r"
    by (auto simp: mp split: option.splits)
  define kept where "kept = (\<lambda>p. case match_pattern D threshold txt p of
                                    Inr (Some m) \<Rightarrow> if threshold \<le> match_confidence m then [m] else []
                                  | _ \<Rightarrow> [])"
  define ms where "ms = sort_key (\<lambda>m. - match_confidence m) (concat (map kept (patterns g)))"
  have fm: "find_matches D threshold txt g = Inr ms"
    unfolding find_matches_def collect_matches_all [OF tot, of "[]"] ms_def kept_def by simp
  have srt: "sorted (map (\<lambda>m. - match_confidence m) ms)"
    unfolding ms_def by (rule sorted_sort_key)
  have st: "set ms = {m. \<exists>p \<in> set (patterns g).
                            match_pattern D threshold txt p = Inr (Some m)
                            \<and> threshold \<le> match_confidence m}"
  proof -
    have "m \<in> set (kept p) \<longleftrightarrow>
            match_pattern D threshold txt p = Inr (Some m) \<and> threshold \<le> match_confidence m"
      for m p
      unfolding kept_def by (auto split: sum.splits option.splits if_splits)
    then show ?thesis unfolding ms_def by auto
  qed
  have thr: "\<forall>m \<in> set ms. threshold \<le> match_confidence m" unfolding st by blast
  have ex: "\<forall>p \<in> set (patterns g). \<forall>groups.
                 re_match_anchored (template_to_regex (template p)) txt = Some groups \<longrightarrow>
                   match_pattern D threshold txt p
                     = Inr (Some \<lparr> pattern = p, match_confidence = 1,
                              entities = entities_from_groups []
                                           (find_placeholders (template p)) groups,
                              match_type = ''exact'' \<rparr>)
                   \<and> (threshold \<le> 1 \<longrightarrow>
                        \<lparr> pattern = p, match_confidence = 1,
                          entities = entities_from_groups []
                                       (find_placeholders (template p)) groups,
                          match_type = ''exact'' \<rparr> \<in> set ms)
                   \<and> (\<forall>v \<in> set groups. \<exists>i k. v = take k (drop i txt))
                   \<and> (distinct (find_placeholders (template p)) \<longrightarrow>
                        entities_from_groups [] (find_placeholders (template p)) groups
                          = zip (find_placeholders (template p)) (map strip groups))"
  proof (intro ballI allI impI)
    fix p groups
    assume p: "p \<in> set (patterns g)"
       and m: "re_match_anchored (template_to_regex (template p)) txt = Some groups"
    define r where "r = \<lparr> pattern = p, match_confidence = 1,
                          entities = entities_from_groups []
                                       (find_placeholders (template p)) groups,
                          match_type = ''exact'' \<rparr>"
    have a: "match_pattern D threshold txt p = Inr (Some r)"
      unfolding mp m r_def by simp
    have b: "threshold \<le> 1 \<longrightarrow> r \<in> set ms"
    proof
      assume "threshold \<le> 1"
      then have "threshold \<le> match_confidence r" by (simp add: r_def)
      with a p show "r \<in> set ms" unfolding st by blast
    qed
    have c: "\<forall>v \<in> set groups. \<exists>i k. v = take k (drop i txt)"
      using m unfolding re_match_anchored_def by (rule rx_match_anchored_slices)
    have d: "distinct (find_placeholders (template p)) \<longrightarrow>
               entities_from_groups [] (find_placeholders (template p)) groups
                 = zip (find_placeholders (template p)) (map strip groups)"
    proof
      assume "distinct (find_placeholders (template p))"
      then show "entities_from_groups [] (find_placeholders (template p)) groups
                 = zip (find_placeholders (template p)) (map strip groups)"
        using entities_from_groups_zip [of "find_placeholders (template p)" "[]" groups] by simp
    qed
    from a b c d show "match_pattern D threshold txt p
                     = Inr (Some \<lparr> pattern = p, match_confidence = 1,
                              entities = entities_from_groups []
                                           (find_placeholders (template p)) groups,
                              match_type = ''exact'' \<rparr>)
                   \<and> (threshold \<le> 1 \<longrightarrow>
                        \<lparr> pattern = p, match_confidence = 1,
                          entities = entities_from_groups []
                                       (find_placeholders (template p)) groups,
                          match_type = ''exact'' \<rparr> \<in> set ms)
                   \<and> (\<forall>v \<in> set groups. \<exists>i k. v = take k (drop i txt))
                   \<and> (distinct (find_placeholders (template p)) \<longrightarrow>
                        entities_from_groups [] (find_placeholders (template p)) groups
                          = zip (find_placeholders (template p)) (map strip groups))"
      unfolding r_def by blast
  qed
  from fm srt thr st ex show ?thesis by blast
qed

theorem find_matches_sorted_filtered_witness:
  "re_match_anchored (template_to_regex (template sample_pattern)) ''Meetings With John Smith''
     = Some [''John Smith'']
   \<and> match_pattern difflib (7 / 10) ''Meetings With John Smith'' sample_pattern
       = Inr (Some \<lparr> pattern = sample_pattern, match_confidence = 1,
                      entities = [(''person'', ''John Smith'')], match_type = ''exact'' \<rparr>)
   \<and> find_matches difflib (7 / 10) ''Meetings With John Smith'' test_grammar
       = Inr [\<lparr> pattern = sample_pattern, match_confidence = 1,
                 entities = [(''person'', ''John Smith'')], match_type = ''exact'' \<rparr>]"
proof -
  have h1: "\<forall>a b. 0 \<le> ratio_str difflib a b \<and> ratio_str difflib a b \<le> 1"
    by (simp add: difflib_def sm_ratio_range)
  have h2: "\<forall>a b. 0 \<le> ratio_seq difflib a b \<and> ratio_seq difflib a b \<le> 1"
    by (simp add: difflib_def sm_ratio_range)
  have h3: "\<forall>x y. x \<le> y \<longrightarrow> round_float difflib x \<le> round_float difflib y"
    by (simp add: difflib_def)
  have h4: "round_float difflib 0 = 0 \<and> round_float difflib 1 = 1"
    by (simp add: difflib_def)
  have h5: "round_float difflib (round_float difflib (4 / 10))
              + round_float difflib (round_float difflib (6 / 10)) \<le> 1"
    by (simp add: difflib_def)
  have h6: "\<forall>xs. (\<forall>x \<in> set xs. 0 \<le> x \<and> x \<le> 1)
                \<longrightarrow> 0 \<le> sum_floats difflib xs \<and> sum_floats difflib xs \<le> of_nat (length xs)"
    by (simp add: difflib_def sum_list_unit_range)
  have m: "re_match_anchored (template_to_regex (template sample_pattern))
             ''Meetings With John Smith'' = Some [''John Smith'']"
    by code_simp
  have e: "entities_from_groups [] (find_placeholders (template sample_pattern)) [''John Smith'']
             = [(''person'', ''John Smith'')]"
    by code_simp
  have p: "sample_pattern \<in> set (patterns test_grammar)"
    by (simp add: test_grammar_def)
  have f: "find_matches difflib (7 / 10) ''Meetings With John Smith'' test_grammar
       = Inr [\<lparr> pattern = sample_pattern, match_confidence = 1,
                 entities = [(''person'', ''John Smith'')], match_type = ''exact'' \<rparr>]"
    by code_simp
  from find_matches_sorted_filtered
         [OF h1 h2 h3 h4 h5 h6, of "7 / 10" "''Meetings With John Smith''" test_grammar]
  obtain ms where
    x: "\<forall>p \<in> set (patterns test_grammar). \<forall>groups.
          re_match_anchored (template_to_regex (template p)) ''Meetings With John Smith''
            = Some groups \<longrightarrow>
          match_pattern difflib (7 / 10) ''Meetings With John Smith'' p
            = Inr (Some \<lparr> pattern = p, match_confidence = 1,
                           entities = entities_from_groups []
                                        (find_placeholders (template p)) groups,
                           match_type = ''exact'' \<rparr>)"
    by blast
  from x p m have "match_pattern difflib (7 / 10) ''Meetings With John Smith'' sample_pattern
       = Inr (Some \<lparr> pattern = sample_pattern, match_confidence = 1,
                      entities = entities_from_groups []
                                   (find_placeholders (template sample_pattern)) [''John Smith''],
                      match_type = ''exact'' \<rparr>)"
    by blast
  then have mp: "match_pattern difflib (7 / 10) ''Meetings With John Smith'' sample_pattern
       = Inr (Some \<lparr> pattern = sample_pattern, match_confidence = 1,
                      entities = [(''person'', ''John Smith'')], match_type = ''exact'' \<rparr>)"
    unfolding e .
  from m mp f show ?thesis by blast
qed


end
